theory Spec2Isabelle
  imports Complex_Main
begin

section \<open>Haplotype resolution on the repeat graph\<close>

text \<open>
  A shallow embedding of \<^verbatim>\<open>src/src/repeat_graph/haplotype_resolver.cpp\<close>:
  \<^verbatim>\<open>collapseHeterozygousBulges\<close>, \<^verbatim>\<open>collapseHeterozygousLoops\<close> and
  \<^verbatim>\<open>findComplexHaplotypes\<close>. Nodes and edges are heap objects reached through
  pointers, so the graph is an explicit store: a table of nodes and a table of edges,
  indexed by references. A pass takes the store and returns the updated one.
\<close>

subsection \<open>Data model\<close>

type_synonym node_ref = nat
type_synonym edge_ref = nat

text \<open>
  Modelled from the spec: \<^verbatim>\<open>FastaRecord::Id\<close> is declared outside the sources. The spec
  describes it as a numeric identity with a strand bit, \<^verbatim>\<open>rc\<close> giving the twin on the
  other strand.
\<close>

datatype seq_id = SeqId nat bool

fun rc :: "seq_id \<Rightarrow> seq_id" where
  "rc (SeqId n s) = SeqId n (\<not> s)"

fun strand :: "seq_id \<Rightarrow> bool" where
  "strand (SeqId n s) = s"

text \<open>
  Modelled from the spec: \<^verbatim>\<open>GraphEdge\<close> and \<^verbatim>\<open>GraphNode\<close> are declared in a header
  outside the sources. The fields are the ones the passes read and write; the spec gives
  \<^verbatim>\<open>meanCoverage\<close> as a float, taken here as an exact rational (no rounding), and the
  edge length that the derived attributes of a path are computed from.
\<close>

record graph_edge =
  edgeId :: seq_id
  nodeLeft :: node_ref
  nodeRight :: node_ref
  edgeLength :: int
  meanCoverage :: rat
  altHaplotype :: bool
  selfComplement :: bool

record graph_node =
  inEdges :: "edge_ref list"
  outEdges :: "edge_ref list"

text \<open>
  The store. \<open>nextNode\<close> is the number of nodes allocated so far; \<open>complementEdge\<close> is the
  twin lookup of the graph (\<^verbatim>\<open>_graph.complementEdge\<close>), a parameter of the model.
\<close>

record repeat_graph =
  nodeTab :: "node_ref \<Rightarrow> graph_node"
  nextNode :: nat
  edgeTab :: "edge_ref \<Rightarrow> graph_edge"
  complementEdge :: "edge_ref \<Rightarrow> edge_ref"

text \<open>
  Modelled from the spec: \<^verbatim>\<open>UnbranchingPath\<close> is declared outside the sources. It holds a
  non-empty sequence of edge pointers (\<open>pfront\<close> is \<^verbatim>\<open>path.front()\<close>, \<open>ptail\<close> the rest),
  and the attributes \<^verbatim>\<open>id\<close>, \<^verbatim>\<open>length\<close> and \<^verbatim>\<open>meanCoverage\<close> computed when
  the path was extracted (\<open>pid\<close>, \<open>plength\<close>, \<open>pcov\<close>). \<^verbatim>\<open>nodeLeft()\<close> and
  \<^verbatim>\<open>nodeRight()\<close> are references into the first and the last edge.
\<close>

record unbranching_path =
  pfront :: edge_ref
  ptail :: "edge_ref list"
  pid :: seq_id
  plength :: int
  pcov :: rat

text \<open>
  What can go wrong in the C++: reading through a null pointer, indexing a vector past
  its end, building a vector from an invalid iterator range, and a loop that does not
  end.
\<close>

datatype error = NullDeref | OutOfRange | BadRange | NoReturn

text \<open>
  Modelled from the spec: the accessors of \<^verbatim>\<open>UnbranchingPath\<close>. \<open>path_edges\<close> is the
  vector \<^verbatim>\<open>path\<close>, \<open>pback\<close> is \<^verbatim>\<open>path.back()\<close>; \<^verbatim>\<open>nodeLeft()\<close> is the source of
  the first edge, \<^verbatim>\<open>nodeRight()\<close> the target of the last, both read from the graph at
  the time of the call; \<^verbatim>\<open>isLooped()\<close> compares the two.
\<close>

definition path_edges :: "unbranching_path \<Rightarrow> edge_ref list" where
  "path_edges p = pfront p # ptail p"

definition pback :: "unbranching_path \<Rightarrow> edge_ref" where
  "pback p = last (pfront p # ptail p)"

definition pathNodeLeft :: "repeat_graph \<Rightarrow> unbranching_path \<Rightarrow> node_ref" where
  "pathNodeLeft g p = nodeLeft (edgeTab g (pfront p))"

definition pathNodeRight :: "repeat_graph \<Rightarrow> unbranching_path \<Rightarrow> node_ref" where
  "pathNodeRight g p = nodeRight (edgeTab g (pback p))"

definition isLooped :: "repeat_graph \<Rightarrow> unbranching_path \<Rightarrow> bool" where
  "isLooped g p = (pathNodeLeft g p = pathNodeRight g p)"

subsection \<open>Graph primitives\<close>

definition upd_edge :: "edge_ref \<Rightarrow> (graph_edge \<Rightarrow> graph_edge) \<Rightarrow> repeat_graph \<Rightarrow> repeat_graph" where
  "upd_edge e f g = g\<lparr>edgeTab := (edgeTab g)(e := f (edgeTab g e))\<rparr>"

definition upd_node :: "node_ref \<Rightarrow> (graph_node \<Rightarrow> graph_node) \<Rightarrow> repeat_graph \<Rightarrow> repeat_graph" where
  "upd_node n f g = g\<lparr>nodeTab := (nodeTab g)(n := f (nodeTab g n))\<rparr>"

text \<open>
  Modelled from the spec: \<^verbatim>\<open>addNode\<close> allocates a fresh node with empty adjacency;
  \<^verbatim>\<open>vecRemove\<close> removes the first matching entry of a list.
\<close>

definition addNode :: "repeat_graph \<Rightarrow> node_ref \<times> repeat_graph" where
  "addNode g =
     (nextNode g,
      g\<lparr>nodeTab := (nodeTab g)(nextNode g := \<lparr>inEdges = [], outEdges = []\<rparr>),
        nextNode := Suc (nextNode g)\<rparr>)"

definition vecRemove :: "edge_ref list \<Rightarrow> edge_ref \<Rightarrow> edge_ref list" where
  "vecRemove v x = remove1 x v"

text \<open>A loop body that may fail, run over a list: the first error ends the loop.\<close>

fun foldE :: "('a \<Rightarrow> 's \<Rightarrow> error + 's) \<Rightarrow> 'a list \<Rightarrow> 's \<Rightarrow> error + 's" where
  "foldE f [] s = Inr s"
| "foldE f (x # xs) s = (case f x s of Inl e \<Rightarrow> Inl e | Inr s' \<Rightarrow> foldE f xs s')"

subsection \<open>Marking edges and their twins\<close>

text \<open>
  \<^verbatim>\<open>edge->altHaplotype = v; _graph.complementEdge(edge)->altHaplotype = v;\<close>
\<close>

definition markEdge :: "bool \<Rightarrow> edge_ref \<Rightarrow> repeat_graph \<Rightarrow> repeat_graph" where
  "markEdge v e g =
     upd_edge (complementEdge g e) (\<lambda>x. x\<lparr>altHaplotype := v\<rparr>)
       (upd_edge e (\<lambda>x. x\<lparr>altHaplotype := v\<rparr>) g)"

definition markPath :: "unbranching_path \<Rightarrow> repeat_graph \<Rightarrow> repeat_graph" where
  "markPath p g = fold (markEdge True) (path_edges p) g"

text \<open>
  The body of the loop over the retained branch (lines 92-98): the coverage of the
  alternative is added to the edge and to its twin, and both flags are cleared.
\<close>

definition absorbEdge :: "rat \<Rightarrow> edge_ref \<Rightarrow> repeat_graph \<Rightarrow> repeat_graph" where
  "absorbEdge c e g =
     (let g1 = upd_edge e (\<lambda>x. x\<lparr>meanCoverage := meanCoverage x + c\<rparr>) g;
          g2 = upd_edge (complementEdge g1 e) (\<lambda>x. x\<lparr>meanCoverage := meanCoverage x + c\<rparr>) g1;
          g3 = upd_edge e (\<lambda>x. x\<lparr>altHaplotype := False\<rparr>) g2
      in upd_edge (complementEdge g3 e) (\<lambda>x. x\<lparr>altHaplotype := False\<rparr>) g3)"

subsection \<open>collapseHeterozygousBulges\<close>

text \<open>Lines 26-34: the paths that share both end nodes with \<open>path\<close>, in list order.\<close>

definition twoPaths :: "unbranching_path list \<Rightarrow> repeat_graph \<Rightarrow> unbranching_path \<Rightarrow> unbranching_path list" where
  "twoPaths ps g path =
     filter (\<lambda>c. pathNodeLeft g c = pathNodeLeft g path \<and> pathNodeRight g c = pathNodeRight g path) ps"

text \<open>
  Lines 46-53: both pointers start as null and every match overwrites them, so the last
  match in list order stays.
\<close>

definition findEntrance :: "unbranching_path list \<Rightarrow> repeat_graph \<Rightarrow> node_ref \<Rightarrow> unbranching_path option" where
  "findEntrance ps g n =
     (case filter (\<lambda>c. pathNodeRight g c = n) ps of [] \<Rightarrow> None | c # cs \<Rightarrow> Some (last (c # cs)))"

definition findExit :: "unbranching_path list \<Rightarrow> repeat_graph \<Rightarrow> node_ref \<Rightarrow> unbranching_path option" where
  "findExit ps g n =
     (case filter (\<lambda>c. pathNodeLeft g c = n) ps of [] \<Rightarrow> None | c # cs \<Rightarrow> Some (last (c # cs)))"

text \<open>Lines 41-44, as the condition under which the candidate goes on.\<close>

definition bulgeDegreeOk :: "repeat_graph \<Rightarrow> unbranching_path \<Rightarrow> bool" where
  "bulgeDegreeOk g t0 =
     (length (inEdges (nodeTab g (pathNodeLeft g t0))) = 1 \<and>
      length (outEdges (nodeTab g (pathNodeLeft g t0))) = 2 \<and>
      length (outEdges (nodeTab g (pathNodeRight g t0))) = 1 \<and>
      length (inEdges (nodeTab g (pathNodeRight g t0))) = 2)"

type_synonym bulge_state = "repeat_graph \<times> seq_id set \<times> nat"

text \<open>
  Lines 71-99, for an accepted bubble: \<open>t0\<close> and \<open>t1\<close> are \<^verbatim>\<open>twoPaths[0]\<close> and
  \<^verbatim>\<open>twoPaths[1]\<close> after the swap.
\<close>

definition bulgeApply :: "bool \<Rightarrow> unbranching_path \<Rightarrow> unbranching_path \<Rightarrow> bulge_state \<Rightarrow> bulge_state" where
  "bulgeApply removeAlternatives t0 t1 st =
     (case st of (g, toSeparate, numMasked) \<Rightarrow>
        let numMasked' =
              (if \<not> altHaplotype (edgeTab g (pfront t0)) \<or> \<not> altHaplotype (edgeTab g (pfront t1))
               then Suc numMasked else numMasked);
            g1 = markPath t1 (markPath t0 g)
        in if removeAlternatives
           then (fold (absorbEdge (pcov t0)) (path_edges t1) g1,
                 insert (rc (pid t0)) (insert (pid t0) toSeparate), numMasked')
           else (g1, toSeparate, numMasked'))"

text \<open>
  Lines 24-74: the tests of one iteration of the detection loop. The result is \<open>None\<close>
  where the code says \<^verbatim>\<open>continue\<close>, and the two branches in their final order
  (after the swap of line 73) where the bubble is accepted. The entrance and exit
  pointers are first read in the coverage test; a null pointer there is the error
  \<open>NullDeref\<close>. \<^verbatim>\<open>MAX_COV_VAR\<close> is 1.5.
\<close>

definition bulgeCandidate :: "int \<Rightarrow> unbranching_path list \<Rightarrow> repeat_graph \<Rightarrow> seq_id set \<Rightarrow> unbranching_path \<Rightarrow> error + (unbranching_path \<times> unbranching_path) option" where
  "bulgeCandidate MAX_BUBBLE_LEN ps g toSeparate path =
     (if isLooped g path then Inr None
      else case twoPaths ps g path of
        [t0, t1] \<Rightarrow>
          if pid t0 = rc (pid t1) then Inr None
          else if pid t0 \<in> toSeparate \<or> pid t1 \<in> toSeparate then Inr None
          else if \<not> bulgeDegreeOk g t0 then Inr None
          else if max (plength t0) (plength t1) > MAX_BUBBLE_LEN then Inr None
          else (case (findEntrance ps g (pathNodeLeft g t0), findExit ps g (pathNodeRight g t0)) of
              (Some entrancePath, Some exitPath) \<Rightarrow>
                if pcov t0 + pcov t1 > min (pcov entrancePath * (3 / 2)) (pcov exitPath * (3 / 2))
                then Inr None
                else if max (plength t0) (plength t1) > max (plength entrancePath) (plength exitPath)
                then Inr None
                else if pcov t0 > pcov t1 then Inr (Some (t1, t0))
                else Inr (Some (t0, t1))
            | _ \<Rightarrow> Inl NullDeref)
      | _ \<Rightarrow> Inr None)"

text \<open>Lines 24-99: one iteration of the detection loop.\<close>

definition bulgeDetect :: "bool \<Rightarrow> int \<Rightarrow> unbranching_path list \<Rightarrow> unbranching_path \<Rightarrow> bulge_state \<Rightarrow> error + bulge_state" where
  "bulgeDetect removeAlternatives MAX_BUBBLE_LEN ps path st =
     (case st of (g, toSeparate, numMasked) \<Rightarrow>
        case bulgeCandidate MAX_BUBBLE_LEN ps g toSeparate path of
          Inl e \<Rightarrow> Inl e
        | Inr None \<Rightarrow> Inr st
        | Inr (Some (t0, t1)) \<Rightarrow> Inr (bulgeApply removeAlternatives t0 t1 st))"

text \<open>
  Lines 106-118: a staged path is moved to two fresh nodes. \<^verbatim>\<open>path.nodeLeft() = newLeft\<close>
  writes the \<^verbatim>\<open>nodeLeft\<close> field of the first edge, \<^verbatim>\<open>path.nodeRight() = newRight\<close>
  the \<^verbatim>\<open>nodeRight\<close> field of the last.
\<close>

definition separatePath :: "unbranching_path \<Rightarrow> repeat_graph \<Rightarrow> repeat_graph" where
  "separatePath path g =
     (case addNode g of (newLeft, ga) \<Rightarrow>
      case addNode ga of (newRight, gb) \<Rightarrow>
        let g1 = upd_node (pathNodeLeft gb path) (\<lambda>n. n\<lparr>outEdges := vecRemove (outEdges n) (pfront path)\<rparr>) gb;
            g2 = upd_node (pathNodeRight g1 path) (\<lambda>n. n\<lparr>inEdges := vecRemove (inEdges n) (pback path)\<rparr>) g1;
            g3 = upd_edge (pfront path) (\<lambda>x. x\<lparr>nodeLeft := newLeft\<rparr>) g2;
            g4 = upd_edge (pback path) (\<lambda>x. x\<lparr>nodeRight := newRight\<rparr>) g3;
            g5 = upd_node newLeft (\<lambda>n. n\<lparr>outEdges := outEdges n @ [pfront path]\<rparr>) g4
        in upd_node newRight (\<lambda>n. n\<lparr>inEdges := inEdges n @ [pback path]\<rparr>) g5)"

definition bulgeCommit :: "seq_id set \<Rightarrow> unbranching_path \<Rightarrow> repeat_graph \<Rightarrow> repeat_graph" where
  "bulgeCommit toSeparate path g = (if pid path \<in> toSeparate then separatePath path g else g)"

text \<open>
  The whole pass. \<open>ps\<close> is the list \<^verbatim>\<open>getUnbranchingPaths\<close> returned and
  \<open>MAX_BUBBLE_LEN\<close> the configured \<^verbatim>\<open>max_bubble_length\<close>; both come from
  collaborators outside the sources. The call of \<^verbatim>\<open>updateAlignments\<close> and the log line
  do not touch the graph and are left out.
\<close>

definition collapseHeterozygousBulges :: "bool \<Rightarrow> int \<Rightarrow> unbranching_path list \<Rightarrow> repeat_graph \<Rightarrow> error + (repeat_graph \<times> nat)" where
  "collapseHeterozygousBulges removeAlternatives MAX_BUBBLE_LEN ps g =
     (case foldE (bulgeDetect removeAlternatives MAX_BUBBLE_LEN ps) ps (g, {}, 0) of
        Inl e \<Rightarrow> Inl e
      | Inr (g1, toSeparate, numMasked) \<Rightarrow>
          if removeAlternatives
          then Inr (fold (bulgeCommit toSeparate) ps g1, card toSeparate div 2)
          else Inr (g1, numMasked))"

subsection \<open>collapseHeterozygousLoops\<close>

text \<open>
  Lines 159-167: the last path that ends (starts) at the node of the loop and is not the
  loop itself.
\<close>

definition findLoopEntrance :: "unbranching_path list \<Rightarrow> repeat_graph \<Rightarrow> node_ref \<Rightarrow> unbranching_path \<Rightarrow> unbranching_path option" where
  "findLoopEntrance ps g node loop =
     (case filter (\<lambda>c. pathNodeRight g c = node \<and> pid loop \<noteq> pid c) ps of
        [] \<Rightarrow> None | c # cs \<Rightarrow> Some (last (c # cs)))"

definition findLoopExit :: "unbranching_path list \<Rightarrow> repeat_graph \<Rightarrow> node_ref \<Rightarrow> unbranching_path \<Rightarrow> unbranching_path option" where
  "findLoopExit ps g node loop =
     (case filter (\<lambda>c. pathNodeLeft g c = node \<and> pid loop \<noteq> pid c) ps of
        [] \<Rightarrow> None | c # cs \<Rightarrow> Some (last (c # cs)))"

text \<open>Lines 156-157, as the condition under which the candidate goes on.\<close>

definition loopDegreeOk :: "repeat_graph \<Rightarrow> unbranching_path \<Rightarrow> bool" where
  "loopDegreeOk g loop =
     (length (inEdges (nodeTab g (pathNodeLeft g loop))) = 2 \<and>
      length (outEdges (nodeTab g (pathNodeLeft g loop))) = 2)"

text \<open>
  Lines 151-179: the tests of one iteration. \<open>None\<close> is \<^verbatim>\<open>continue\<close>; an accepted loop
  comes with its entrance and exit paths. The entrance pointer is read first (line 169),
  the exit pointer only when the entrance is not looped (line 170). \<^verbatim>\<open>COV_MULT\<close> is 1.5,
  and line 174 takes the minimum of the entrance coverage with itself.
\<close>

definition loopCandidate :: "unbranching_path list \<Rightarrow> repeat_graph \<Rightarrow> unbranching_path \<Rightarrow> error + (unbranching_path \<times> unbranching_path) option" where
  "loopCandidate ps g loop =
     (if \<not> strand (pid loop) then Inr None
      else if \<not> isLooped g loop then Inr None
      else if selfComplement (edgeTab g (pfront loop)) then Inr None
      else if \<not> loopDegreeOk g loop then Inr None
      else case findLoopEntrance ps g (pathNodeLeft g loop) loop of
          None \<Rightarrow> Inl NullDeref
        | Some entrancePath \<Rightarrow>
            if isLooped g entrancePath then Inr None
            else (case findLoopExit ps g (pathNodeLeft g loop) loop of
                None \<Rightarrow> Inl NullDeref
              | Some exitPath \<Rightarrow>
                  if pid entrancePath = rc (pid exitPath) then Inr None
                  else if pcov loop > (3 / 2) * min (pcov entrancePath) (pcov entrancePath)
                  then Inr None
                  else if plength loop > max (plength entrancePath) (plength exitPath)
                  then Inr None
                  else Inr (Some (entrancePath, exitPath))))"

type_synonym loop_state = "repeat_graph \<times> seq_id set \<times> seq_id set \<times> nat"

text \<open>Lines 181-198, for an accepted loop. The state is the graph, \<^verbatim>\<open>toUnroll\<close>,
  \<^verbatim>\<open>toRemove\<close> and \<^verbatim>\<open>numMasked\<close>.\<close>

definition loopApply :: "unbranching_path \<Rightarrow> unbranching_path \<Rightarrow> unbranching_path \<Rightarrow> loop_state \<Rightarrow> loop_state" where
  "loopApply loop entrancePath exitPath st =
     (case st of (g, toUnroll, toRemove, numMasked) \<Rightarrow>
        let numMasked' =
              (if \<not> altHaplotype (edgeTab g (pfront loop)) then Suc numMasked else numMasked);
            g1 = markPath loop g
        in if pcov loop < (pcov entrancePath + pcov exitPath) / 4
           then (g1, toUnroll, insert (rc (pid loop)) (insert (pid loop) toRemove), numMasked')
           else (g1, insert (rc (pid loop)) (insert (pid loop) toUnroll), toRemove, numMasked'))"

definition loopDetect :: "unbranching_path list \<Rightarrow> unbranching_path \<Rightarrow> loop_state \<Rightarrow> error + loop_state" where
  "loopDetect ps loop st =
     (case st of (g, toUnroll, toRemove, numMasked) \<Rightarrow>
        case loopCandidate ps g loop of
          Inl e \<Rightarrow> Inl e
        | Inr None \<Rightarrow> Inr st
        | Inr (Some (entrancePath, exitPath)) \<Rightarrow> Inr (loopApply loop entrancePath exitPath st))"

text \<open>
  Lines 209-218: unrolling. \<^verbatim>\<open>inEdges[0]\<close> and \<^verbatim>\<open>inEdges[id]\<close> index a vector; an
  index past its end is the error \<open>OutOfRange\<close>.
\<close>

definition unrollLoop :: "unbranching_path \<Rightarrow> repeat_graph \<Rightarrow> error + repeat_graph" where
  "unrollLoop path g =
     (case addNode g of (newNode, ga) \<Rightarrow>
        let ins = inEdges (nodeTab ga (pathNodeLeft ga path))
        in case ins of
             [] \<Rightarrow> Inl OutOfRange
           | e0 # rest \<Rightarrow>
               let idx = (if e0 = pback path then 1 else 0 :: nat)
               in if idx < length ins
                  then
                    let prevEdge = ins ! idx;
                        g1 = upd_node (pathNodeLeft ga path) (\<lambda>n. n\<lparr>outEdges := vecRemove (outEdges n) (pfront path)\<rparr>) ga;
                        g2 = upd_node (pathNodeLeft g1 path) (\<lambda>n. n\<lparr>inEdges := vecRemove (inEdges n) prevEdge\<rparr>) g1;
                        g3 = upd_edge (pfront path) (\<lambda>x. x\<lparr>nodeLeft := newNode\<rparr>) g2;
                        g4 = upd_node newNode (\<lambda>n. n\<lparr>outEdges := outEdges n @ [pfront path]\<rparr>) g3;
                        g5 = upd_edge prevEdge (\<lambda>x. x\<lparr>nodeRight := newNode\<rparr>) g4
                    in Inr (upd_node newNode (\<lambda>n. n\<lparr>inEdges := inEdges n @ [prevEdge]\<rparr>) g5)
                  else Inl OutOfRange)"

text \<open>Lines 224-232: removing.\<close>

definition removeLoop :: "unbranching_path \<Rightarrow> repeat_graph \<Rightarrow> repeat_graph" where
  "removeLoop path g =
     (case addNode g of (newLeft, ga) \<Rightarrow>
      case addNode ga of (newRight, gb) \<Rightarrow>
        let g1 = upd_node (pathNodeLeft gb path) (\<lambda>n. n\<lparr>outEdges := vecRemove (outEdges n) (pfront path)\<rparr>) gb;
            g2 = upd_node (pathNodeLeft g1 path) (\<lambda>n. n\<lparr>inEdges := vecRemove (inEdges n) (pback path)\<rparr>) g1;
            g3 = upd_edge (pfront path) (\<lambda>x. x\<lparr>nodeLeft := newLeft\<rparr>) g2;
            g4 = upd_node newRight (\<lambda>n. n\<lparr>inEdges := inEdges n @ [pback path]\<rparr>) g3;
            g5 = upd_edge (pback path) (\<lambda>x. x\<lparr>nodeRight := newRight\<rparr>) g4
        in upd_node newLeft (\<lambda>n. n\<lparr>outEdges := outEdges n @ [pfront path]\<rparr>) g5)"

text \<open>Lines 205-233: one iteration of the second loop; the two tests are not exclusive.\<close>

definition loopCommit :: "seq_id set \<Rightarrow> seq_id set \<Rightarrow> unbranching_path \<Rightarrow> repeat_graph \<Rightarrow> error + repeat_graph" where
  "loopCommit toUnroll toRemove path g =
     (case (if pid path \<in> toUnroll then unrollLoop path g else Inr g) of
        Inl e \<Rightarrow> Inl e
      | Inr g1 \<Rightarrow> if pid path \<in> toRemove then Inr (removeLoop path g1) else Inr g1)"

definition collapseHeterozygousLoops :: "bool \<Rightarrow> unbranching_path list \<Rightarrow> repeat_graph \<Rightarrow> error + (repeat_graph \<times> nat)" where
  "collapseHeterozygousLoops removeAlternatives ps g =
     (case foldE (loopDetect ps) ps (g, {}, {}, 0) of
        Inl e \<Rightarrow> Inl e
      | Inr (g1, toUnroll, toRemove, numMasked) \<Rightarrow>
          if removeAlternatives
          then (case foldE (loopCommit toUnroll toRemove) ps g1 of
                  Inl e \<Rightarrow> Inl e
                | Inr g2 \<Rightarrow> Inr (g2, (card toRemove + card toUnroll) div 2))
          else Inr (g1, numMasked))"

subsection \<open>findComplexHaplotypes\<close>

text \<open>
  Modelled from the spec: \<^verbatim>\<open>EdgeAlignment\<close> and \<^verbatim>\<open>GraphAlignment\<close> are declared outside
  the sources. An alignment is a sequence of records, each with the edge it lies on and
  the end position \<^verbatim>\<open>overlap.curEnd\<close> in the read. \<open>path_with_score\<close> is the local
  struct \<^verbatim>\<open>PathWithScore\<close>. A \<open>haplo_report\<close> is what lines 457-488 write to the log for
  one start edge: the start edge, the number of out-paths, the groups, the branches and
  the two boundary edges.
\<close>

record edge_alignment =
  alnEdge :: edge_ref
  curEnd :: int

type_synonym graph_alignment = "edge_alignment list"

record path_with_score =
  gpath :: graph_alignment
  score :: int

record haplo_report =
  repStartEdge :: edge_ref
  repNumPaths :: nat
  repGroups :: "path_with_score list"
  repBranches :: "path_with_score list"
  repBoundaries :: "edge_ref \<times> edge_ref"

text \<open>
  Lines 252-265: \<^verbatim>\<open>alnIndex[edge]\<close> holds, in the order of the aligner's list, the
  alignments of more than one record that touch the edge.
\<close>

definition alnIndex :: "graph_alignment list \<Rightarrow> edge_ref \<Rightarrow> graph_alignment list" where
  "alnIndex alns e = filter (\<lambda>aln. length aln > 1 \<and> e \<in> set (map alnEdge aln)) alns"

text \<open>Lines 269-276.\<close>

definition loopedEdgesOf :: "repeat_graph \<Rightarrow> unbranching_path list \<Rightarrow> edge_ref set" where
  "loopedEdgesOf g ps = (\<Union>p \<in> set (filter (isLooped g) ps). set (path_edges p))"

text \<open>
  Lines 288-300: the suffix of each indexed alignment from the first record on the start
  edge (an alignment without such a record adds nothing).
\<close>

definition outPathsOf :: "graph_alignment list \<Rightarrow> edge_ref \<Rightarrow> graph_alignment list" where
  "outPathsOf alns startEdge =
     filter (\<lambda>p. p \<noteq> []) (map (dropWhile (\<lambda>a. alnEdge a \<noteq> startEdge)) (alnIndex alns startEdge))"

text \<open>
  Lines 302-305: the sort key \<^verbatim>\<open>back().overlap.curEnd - front().overlap.curEnd\<close>, sorted
  from the longest span to the shortest. \<^verbatim>\<open>std::sort\<close> leaves the order of paths with the
  same span open; the model keeps their order. The out-paths are never empty.
\<close>

definition spanOf :: "graph_alignment \<Rightarrow> int" where
  "spanOf a = (case a of [] \<Rightarrow> 0 | x # xs \<Rightarrow> curEnd (last (x # xs)) - curEnd x)"

definition sortBySpan :: "graph_alignment list \<Rightarrow> graph_alignment list" where
  "sortBySpan outPaths = sort_key (\<lambda>a. - spanOf a) outPaths"

text \<open>
  Lines 316-342: the target path is compared with each group's reference over the length
  of the shorter of the two; the first group that contains it gets the point, and a path
  no group contains starts a group of its own.
\<close>

definition contained :: "graph_alignment \<Rightarrow> graph_alignment \<Rightarrow> bool" where
  "contained trgPath referencePath =
     list_all (\<lambda>(a, b). alnEdge a = alnEdge b) (zip trgPath referencePath)"

fun addToGroups :: "graph_alignment \<Rightarrow> path_with_score list \<Rightarrow> path_with_score list" where
  "addToGroups trgPath [] = [\<lparr>gpath = trgPath, score = 1\<rparr>]"
| "addToGroups trgPath (referencePath # rest) =
     (if contained trgPath (gpath referencePath)
      then referencePath\<lparr>score := score referencePath + 1\<rparr> # rest
      else referencePath # addToGroups trgPath rest)"

text \<open>Lines 314 and 343-345: \<^verbatim>\<open>MIN_SCORE\<close> and the groups that reach it.\<close>

definition pathGroupsOf :: "graph_alignment list \<Rightarrow> path_with_score list" where
  "pathGroupsOf outPaths =
     (let MIN_SCORE = max 2 (int (length outPaths div 10))
      in filter (\<lambda>p. \<not> score p < MIN_SCORE) (fold addToGroups outPaths []))"

text \<open>Lines 349-361: the edges seen a second time within one group.\<close>

fun repeatedEdges :: "edge_ref list \<Rightarrow> edge_ref set \<Rightarrow> edge_ref set" where
  "repeatedEdges [] seen = {}"
| "repeatedEdges (e # es) seen =
     (if e \<in> seen then insert e (repeatedEdges es (insert e seen))
      else repeatedEdges es (insert e seen))"

definition repeatsOf :: "path_with_score list \<Rightarrow> edge_ref set" where
  "repeatsOf pathGroups = (\<Union>grp \<in> set pathGroups. repeatedEdges (map alnEdge (gpath grp)) {})"

text \<open>
  Lines 365-386: the edges of the reference that are neither looped nor repeats, cut
  down by every other group to the edges that group has too.
\<close>

definition convergenceEdgesOf :: "edge_ref set \<Rightarrow> edge_ref set \<Rightarrow> edge_ref list \<Rightarrow> edge_ref list list \<Rightarrow> edge_ref set" where
  "convergenceEdgesOf loopedEdges repeats refEdges others =
     fold (\<lambda>p conv. set (filter (\<lambda>e. e \<in> conv) p)) others
       (set (filter (\<lambda>e. e \<notin> loopedEdges \<and> e \<notin> repeats) refEdges))"

text \<open>
  Lines 392-403: one round of the search for the bubble start, over the groups after the
  first. The length of the group is tested before the reference is read at
  \<open>bubbleStartId + 1\<close>; reading the reference past its end is the error \<open>OutOfRange\<close>.
\<close>

fun agreement :: "edge_ref list \<Rightarrow> edge_ref set \<Rightarrow> nat \<Rightarrow> edge_ref list list \<Rightarrow> error + bool" where
  "agreement refEdges conv i [] = Inr True"
| "agreement refEdges conv i (p # rest) =
     (if i + 1 \<ge> length p then Inr False
      else if i + 1 \<ge> length refEdges then Inl OutOfRange
      else if refEdges ! (i + 1) \<notin> conv \<or> p ! (i + 1) \<noteq> refEdges ! (i + 1) then Inr False
      else agreement refEdges conv i rest)"

text \<open>
  Lines 389-406: the loop \<^verbatim>\<open>for (;;)\<close>. With no group after the first it would never
  end (\<open>NoReturn\<close>); the pass reaches it with at least two groups, and then the length of
  the second group bounds the number of rounds.
\<close>

function bubbleStart :: "edge_ref list \<Rightarrow> edge_ref set \<Rightarrow> edge_ref list list \<Rightarrow> nat \<Rightarrow> error + nat" where
  "bubbleStart refEdges conv others bubbleStartId =
     (case agreement refEdges conv bubbleStartId others of
        Inl e \<Rightarrow> Inl e
      | Inr False \<Rightarrow> Inr bubbleStartId
      | Inr True \<Rightarrow>
          (case others of
             [] \<Rightarrow> Inl NoReturn
           | p # rest \<Rightarrow> bubbleStart refEdges conv others (bubbleStartId + 1)))"
  by pat_completeness auto
termination
  by (relation "measure (\<lambda>(refEdges, conv, others, i). length (hd others) - i)")
     (auto split: if_splits)

text \<open>Lines 409-419: the first index after the start whose edge is a convergence edge.\<close>

definition bubbleEnd :: "edge_ref list \<Rightarrow> edge_ref set \<Rightarrow> nat \<Rightarrow> nat option" where
  "bubbleEnd refEdges conv bubbleStartId =
     find (\<lambda>j. refEdges ! j \<in> conv) [bubbleStartId + 1 ..< length refEdges]"

text \<open>
  Lines 425-434: the loop runs over the whole group without a \<^verbatim>\<open>break\<close>, so each index
  ends as the last position of its edge, or 0. \<open>scanIndex e es i acc\<close> scans \<open>es\<close>, whose
  first element has index \<open>i\<close>.
\<close>

primrec scanIndex :: "edge_ref \<Rightarrow> edge_ref list \<Rightarrow> nat \<Rightarrow> nat \<Rightarrow> nat" where
  "scanIndex e [] i acc = acc"
| "scanIndex e (x # xs) i acc = scanIndex e xs (i + 1) (if x = e then i else acc)"

text \<open>
  Lines 435-437: the vector from \<^verbatim>\<open>begin() + groupStart\<close> to
  \<^verbatim>\<open>begin() + groupEnd + 1\<close>. A range that ends before it starts, or past the end of
  the group, is the error \<open>BadRange\<close>.
\<close>

definition trimGroup :: "edge_ref \<Rightarrow> edge_ref \<Rightarrow> path_with_score \<Rightarrow> error + path_with_score" where
  "trimGroup startEdge endEdge grp =
     (let groupStart = scanIndex startEdge (map alnEdge (gpath grp)) 0 0;
          groupEnd = scanIndex endEdge (map alnEdge (gpath grp)) 0 0
      in if groupStart \<le> groupEnd + 1 \<and> groupEnd + 1 \<le> length (gpath grp)
         then Inr \<lparr>gpath = take (groupEnd + 1 - groupStart) (drop groupStart (gpath grp)),
                  score = score grp\<rparr>
         else Inl BadRange)"

text \<open>Lines 439-453: a branch with the edges of an earlier one adds its score to it.\<close>

definition sameEdges :: "path_with_score \<Rightarrow> path_with_score \<Rightarrow> bool" where
  "sameEdges a b = (map alnEdge (gpath a) = map alnEdge (gpath b))"

definition addBranch :: "path_with_score \<Rightarrow> path_with_score list \<Rightarrow> path_with_score list" where
  "addBranch newBranch bubbleBranches =
     (if list_ex (sameEdges newBranch) bubbleBranches
      then map (\<lambda>b. if sameEdges newBranch b then b\<lparr>score := score b + score newBranch\<rparr> else b)
             bubbleBranches
      else bubbleBranches @ [newBranch])"

definition trimStep :: "edge_ref \<Rightarrow> edge_ref \<Rightarrow> path_with_score \<Rightarrow> path_with_score list \<Rightarrow> error + path_with_score list" where
  "trimStep startEdge endEdge grp bubbleBranches =
     (case trimGroup startEdge endEdge grp of
        Inl e \<Rightarrow> Inl e
      | Inr newBranch \<Rightarrow> Inr (addBranch newBranch bubbleBranches))"

text \<open>
  Lines 280-488: one iteration of the main loop, for the start path \<open>startPath\<close>. The
  result is \<open>None\<close> where the code says \<^verbatim>\<open>continue\<close>, and the report it logs otherwise.
  Where the bubble end is found, \<open>bubbleStartId < bubbleEndId\<close> and \<open>bubbleEndId\<close> is an
  index of the reference, so both boundary reads are in range.
\<close>

definition haploStep :: "graph_alignment list \<Rightarrow> unbranching_path list \<Rightarrow> repeat_graph \<Rightarrow> unbranching_path \<Rightarrow> error + haplo_report option" where
  "haploStep alns ps g startPath =
     (if \<not> strand (pid startPath) then Inr None
      else if length (outEdges (nodeTab g (pathNodeRight g startPath))) < 2 then Inr None
      else
        let startEdge = pback startPath
        in if startEdge \<in> loopedEdgesOf g ps then Inr None
           else
             let outPaths = sortBySpan (outPathsOf alns startEdge)
             in if outPaths = [] then Inr None
                else (case pathGroupsOf outPaths of
                    refPath # grp1 # grps \<Rightarrow>
                      let pathGroups = refPath # grp1 # grps;
                          refEdges = map alnEdge (gpath refPath);
                          others = map (\<lambda>grp. map alnEdge (gpath grp)) (grp1 # grps);
                          conv = convergenceEdgesOf (loopedEdgesOf g ps) (repeatsOf pathGroups) refEdges others
                      in (case bubbleStart refEdges conv others 0 of
                            Inl e \<Rightarrow> Inl e
                          | Inr bubbleStartId \<Rightarrow>
                              (case bubbleEnd refEdges conv bubbleStartId of
                                 None \<Rightarrow> Inr None
                               | Some bubbleEndId \<Rightarrow>
                                   (case foldE (trimStep (refEdges ! bubbleStartId) (refEdges ! bubbleEndId))
                                           pathGroups [] of
                                      Inl e \<Rightarrow> Inl e
                                    | Inr bubbleBranches \<Rightarrow>
                                        if length bubbleBranches < 2 then Inr None
                                        else Inr (Some
                                          \<lparr>repStartEdge = startEdge,
                                           repNumPaths = length outPaths,
                                           repGroups = pathGroups,
                                           repBranches = bubbleBranches,
                                           repBoundaries = (refEdges ! bubbleStartId, refEdges ! bubbleEndId)\<rparr>))))
                  | _ \<Rightarrow> Inr None))"

text \<open>
  The whole pass: the graph is carried through the loop as the passes above carry it,
  together with the log; the result is the graph, the returned number and the log.
\<close>

definition haploIter :: "graph_alignment list \<Rightarrow> unbranching_path list \<Rightarrow> unbranching_path \<Rightarrow> repeat_graph \<times> haplo_report list \<Rightarrow> error + (repeat_graph \<times> haplo_report list)" where
  "haploIter alns ps startPath st =
     (case st of (g, reports) \<Rightarrow>
        case haploStep alns ps g startPath of
          Inl e \<Rightarrow> Inl e
        | Inr None \<Rightarrow> Inr (g, reports)
        | Inr (Some r) \<Rightarrow> Inr (g, reports @ [r]))"

definition findComplexHaplotypes :: "graph_alignment list \<Rightarrow> unbranching_path list \<Rightarrow> repeat_graph \<Rightarrow> error + (repeat_graph \<times> nat \<times> haplo_report list)" where
  "findComplexHaplotypes alns ps g =
     (case foldE (haploIter alns ps) ps (g, []) of
        Inl e \<Rightarrow> Inl e
      | Inr (g', reports) \<Rightarrow> Inr (g', 0, reports))"

section \<open>Predicates used in the statements\<close>

text \<open>
  \<open>onlyFlagsChanged g g'\<close>: the node table, the node counter and the twin lookup of \<open>g'\<close>
  are those of \<open>g\<close>, and every edge of \<open>g'\<close> is the edge of \<open>g\<close> up to its
  \<^verbatim>\<open>altHaplotype\<close> flag.
\<close>

definition onlyFlagsChanged :: "repeat_graph \<Rightarrow> repeat_graph \<Rightarrow> bool" where
  "onlyFlagsChanged g g' =
     (nodeTab g' = nodeTab g \<and> nextNode g' = nextNode g \<and> complementEdge g' = complementEdge g \<and>
      (\<forall>e. edgeTab g' e = (edgeTab g e)\<lparr>altHaplotype := altHaplotype (edgeTab g' e)\<rparr>))"





text \<open>
  Well-formedness of the input of a pass. \<open>graphCoherent\<close>: every entry of an adjacency
  list of an allocated node is an edge that ends (starts) at that node, and no list has
  an entry twice. \<open>chainOk\<close>: consecutive edges of a path meet at a node with one edge in
  and one edge out. \<open>pathsWf\<close>: the end nodes of the edges of the paths are allocated
  nodes, every edge of an adjacency list lies on a path, every path is such a chain, and
  no two paths have the same id. \<open>sameTopo\<close>: two graphs with the same nodes, adjacency
  lists and end nodes of every edge.
\<close>

definition graphCoherent :: "repeat_graph \<Rightarrow> bool" where
  "graphCoherent g =
     (\<forall>n \<in> set [0..<nextNode g].
        (\<forall>e \<in> set (inEdges (nodeTab g n)). nodeRight (edgeTab g e) = n) \<and>
        (\<forall>e \<in> set (outEdges (nodeTab g n)). nodeLeft (edgeTab g e) = n) \<and>
        distinct (inEdges (nodeTab g n)) \<and> distinct (outEdges (nodeTab g n)))"

fun chainOk :: "repeat_graph \<Rightarrow> edge_ref list \<Rightarrow> bool" where
  "chainOk g (e1 # e2 # es) =
     (nodeRight (edgeTab g e1) = nodeLeft (edgeTab g e2) \<and>
      length (inEdges (nodeTab g (nodeRight (edgeTab g e1)))) = 1 \<and>
      length (outEdges (nodeTab g (nodeRight (edgeTab g e1)))) = 1 \<and>
      chainOk g (e2 # es))"
| "chainOk g es = True"

definition pathsCover :: "repeat_graph \<Rightarrow> unbranching_path list \<Rightarrow> bool" where
  "pathsCover g ps =
     (\<forall>n \<in> set [0..<nextNode g].
        \<forall>e \<in> set (inEdges (nodeTab g n) @ outEdges (nodeTab g n)).
          \<exists>p \<in> set ps. e \<in> set (path_edges p))"

definition pathsInGraph :: "repeat_graph \<Rightarrow> unbranching_path list \<Rightarrow> bool" where
  "pathsInGraph g ps =
     (\<forall>p \<in> set ps. \<forall>e \<in> set (path_edges p).
        nodeLeft (edgeTab g e) < nextNode g \<and> nodeRight (edgeTab g e) < nextNode g)"

definition pathsWf :: "repeat_graph \<Rightarrow> unbranching_path list \<Rightarrow> bool" where
  "pathsWf g ps =
     (pathsInGraph g ps \<and> pathsCover g ps \<and> (\<forall>p \<in> set ps. chainOk g (path_edges p)) \<and>
      distinct (map pid ps))"

definition sameTopo :: "repeat_graph \<Rightarrow> repeat_graph \<Rightarrow> bool" where
  "sameTopo g g' =
     (nodeTab g' = nodeTab g \<and> nextNode g' = nextNode g \<and>
      (\<forall>e. nodeLeft (edgeTab g' e) = nodeLeft (edgeTab g e) \<and>
           nodeRight (edgeTab g' e) = nodeRight (edgeTab g e)))"

text \<open>
  Modelled from the spec: \<^verbatim>\<open>getUnbranchingPaths\<close> belongs to the graph processor, outside
  the sources. Its contract in the spec: it returns all maximal paths whose interior nodes
  have in-degree 1 and out-degree 1, singleton edges included, both paths of a pair of
  strand twins; the length of a path is the sum of the lengths of its edges and its
  coverage their length-weighted mean. \<open>unbranchingPathsOk g ps\<close> says that \<open>ps\<close> is such
  a list for the coherent graph \<open>g\<close>, with every edge on exactly one path, and with the
  ids of twin paths the \<^verbatim>\<open>rc\<close> of each other, as the passes take them to be when they
  stage \<^verbatim>\<open>id\<close> and \<^verbatim>\<open>id.rc()\<close>.
\<close>

definition unbranchingNode :: "repeat_graph \<Rightarrow> node_ref \<Rightarrow> bool" where
  "unbranchingNode g n = (length (inEdges (nodeTab g n)) = 1 \<and> length (outEdges (nodeTab g n)) = 1)"

definition maximalPath :: "repeat_graph \<Rightarrow> unbranching_path \<Rightarrow> bool" where
  "maximalPath g p =
     (isLooped g p \<or> (\<not> unbranchingNode g (pathNodeLeft g p) \<and> \<not> unbranchingNode g (pathNodeRight g p)))"

definition pathAttributesOk :: "repeat_graph \<Rightarrow> unbranching_path \<Rightarrow> bool" where
  "pathAttributesOk g p =
     (plength p = sum_list (map (\<lambda>e. edgeLength (edgeTab g e)) (path_edges p)) \<and>
      pcov p * of_int (plength p)
        = sum_list (map (\<lambda>e. meanCoverage (edgeTab g e) * of_int (edgeLength (edgeTab g e))) (path_edges p)))"

definition twinPathOf :: "repeat_graph \<Rightarrow> unbranching_path \<Rightarrow> unbranching_path \<Rightarrow> bool" where
  "twinPathOf g p q =
     (pid q = rc (pid p) \<and> path_edges q = rev (map (complementEdge g) (path_edges p)))"

definition unbranchingPathsOk :: "repeat_graph \<Rightarrow> unbranching_path list \<Rightarrow> bool" where
  "unbranchingPathsOk g ps =
     (graphCoherent g \<and> pathsWf g ps \<and> distinct (concat (map path_edges ps)) \<and>
      list_all (\<lambda>p. maximalPath g p \<and> pathAttributesOk g p \<and> list_ex (twinPathOf g p) ps) ps)"

text \<open>
  \<open>bulgeStaged\<close> is the set \<^verbatim>\<open>toSeparate\<close> at the end of the detection loop in collapse
  mode. \<open>freshLeft n0 g n\<close>: the node \<open>n\<close> was allocated as the \<^verbatim>\<open>newLeft\<close> of a
  separation, the nodes from \<open>n0\<close> on being allocated in pairs; \<open>commitInv\<close>: such nodes
  have no incoming edge. \<open>stagedInv\<close>: as long as nothing is staged the graph is the one
  the pass started with, and ids are staged in pairs.
\<close>

definition bulgeStaged :: "int \<Rightarrow> unbranching_path list \<Rightarrow> repeat_graph \<Rightarrow> seq_id set" where
  "bulgeStaged MAX_BUBBLE_LEN ps g =
     (case foldE (bulgeDetect True MAX_BUBBLE_LEN ps) ps (g, {}, 0) of
        Inl e \<Rightarrow> {}
      | Inr (g1, toSeparate, numMasked) \<Rightarrow> toSeparate)"

definition freshLeft :: "nat \<Rightarrow> repeat_graph \<Rightarrow> node_ref \<Rightarrow> bool" where
  "freshLeft n0 g n = (n0 \<le> n \<and> n < nextNode g \<and> even (n - n0))"

definition commitInv :: "nat \<Rightarrow> repeat_graph \<Rightarrow> bool" where
  "commitInv n0 g =
     (n0 \<le> nextNode g \<and> even (nextNode g - n0) \<and>
      (\<forall>n. freshLeft n0 g n \<longrightarrow> inEdges (nodeTab g n) = []))"

definition stagedInv :: "repeat_graph \<Rightarrow> bulge_state \<Rightarrow> bool" where
  "stagedInv g st =
     (case st of (g1, sep, n) \<Rightarrow> finite sep \<and> (sep = {} \<longrightarrow> g1 = g) \<and> (sep \<noteq> {} \<longrightarrow> 2 \<le> card sep))"

section \<open>Example graphs\<close>

text \<open>
  Tables written as lists: entry \<open>n\<close> of the list is the object with reference \<open>n\<close>.
  In the examples edge \<open>2k\<close> and edge \<open>2k+1\<close> are twins.
\<close>

definition tabOf :: "'a \<Rightarrow> 'a list \<Rightarrow> nat \<Rightarrow> 'a" where
  "tabOf d xs n = (if n < length xs then xs ! n else d)"

definition mkEdge :: "seq_id \<Rightarrow> node_ref \<Rightarrow> node_ref \<Rightarrow> int \<Rightarrow> rat \<Rightarrow> bool \<Rightarrow> graph_edge" where
  "mkEdge i l r len c a =
     \<lparr>edgeId = i, nodeLeft = l, nodeRight = r, edgeLength = len, meanCoverage = c,
      altHaplotype = a, selfComplement = False\<rparr>"

definition mkNode :: "edge_ref list \<Rightarrow> edge_ref list \<Rightarrow> graph_node" where
  "mkNode i out = \<lparr>inEdges = i, outEdges = out\<rparr>"

definition mkPath :: "edge_ref \<Rightarrow> seq_id \<Rightarrow> int \<Rightarrow> rat \<Rightarrow> unbranching_path" where
  "mkPath e i len c = \<lparr>pfront = e, ptail = [], pid = i, plength = len, pcov = c\<rparr>"

definition twinOf :: "edge_ref \<Rightarrow> edge_ref" where
  "twinOf e = (if even e then Suc e else e - 1)"

text \<open>
  A simple bulge on both strands: \<open>E \<rightarrow> (A | B) \<rightarrow> X\<close> over the nodes 0 to 3, with edges
  \<open>E = 0\<close>, \<open>A = 2\<close>, \<open>B = 4\<close>, \<open>X = 6\<close>, and the twins \<open>X' \<rightarrow> (A' | B') \<rightarrow> E'\<close> over the
  nodes 4 to 7. The parameters are the coverages of E, A, B and X and the flags of A and B.
\<close>

definition exBulge :: "rat \<Rightarrow> rat \<Rightarrow> rat \<Rightarrow> rat \<Rightarrow> bool \<Rightarrow> bool \<Rightarrow> repeat_graph" where
  "exBulge cE cA cB cX aA aB =
     \<lparr>nodeTab = tabOf (mkNode [] [])
        [mkNode [] [0], mkNode [0] [2, 4], mkNode [2, 4] [6], mkNode [6] [],
         mkNode [] [7], mkNode [7] [3, 5], mkNode [3, 5] [1], mkNode [1] []],
      nextNode = 8,
      edgeTab = tabOf (mkEdge (SeqId 0 True) 0 0 0 0 False)
        [mkEdge (SeqId 1 True) 0 1 1000 cE False, mkEdge (SeqId 1 False) 6 7 1000 cE False,
         mkEdge (SeqId 2 True) 1 2 500 cA aA, mkEdge (SeqId 2 False) 5 6 500 cA aA,
         mkEdge (SeqId 3 True) 1 2 500 cB aB, mkEdge (SeqId 3 False) 5 6 500 cB aB,
         mkEdge (SeqId 4 True) 2 3 1000 cX False, mkEdge (SeqId 4 False) 4 5 1000 cX False],
      complementEdge = twinOf\<rparr>"

definition exBulgePaths :: "rat \<Rightarrow> rat \<Rightarrow> rat \<Rightarrow> rat \<Rightarrow> unbranching_path list" where
  "exBulgePaths cE cA cB cX =
     [mkPath 0 (SeqId 1 True) 1000 cE, mkPath 1 (SeqId 1 False) 1000 cE,
      mkPath 2 (SeqId 2 True) 500 cA, mkPath 3 (SeqId 2 False) 500 cA,
      mkPath 4 (SeqId 3 True) 500 cB, mkPath 5 (SeqId 3 False) 500 cB,
      mkPath 6 (SeqId 4 True) 1000 cX, mkPath 7 (SeqId 4 False) 1000 cX]"



text \<open>
  A self-loop on both strands: \<open>E \<rightarrow> N \<rightarrow> X\<close> with the loop \<open>L\<close> at \<open>N\<close> (node 1), edges
  \<open>E = 0\<close>, \<open>L = 2\<close>, \<open>X = 4\<close>, and the twins at node 4. The parameters are the coverages
  of E, L and X and the flag of L.
\<close>

definition exLoop :: "rat \<Rightarrow> rat \<Rightarrow> rat \<Rightarrow> bool \<Rightarrow> repeat_graph" where
  "exLoop cE cL cX aL =
     \<lparr>nodeTab = tabOf (mkNode [] [])
        [mkNode [] [0], mkNode [0, 2] [2, 4], mkNode [4] [],
         mkNode [] [5], mkNode [5, 3] [3, 1], mkNode [1] []],
      nextNode = 6,
      edgeTab = tabOf (mkEdge (SeqId 0 True) 0 0 0 0 False)
        [mkEdge (SeqId 1 True) 0 1 1000 cE False, mkEdge (SeqId 1 False) 4 5 1000 cE False,
         mkEdge (SeqId 2 True) 1 1 500 cL aL, mkEdge (SeqId 2 False) 4 4 500 cL aL,
         mkEdge (SeqId 3 True) 1 2 1000 cX False, mkEdge (SeqId 3 False) 3 4 1000 cX False],
      complementEdge = twinOf\<rparr>"

definition exLoopPaths :: "rat \<Rightarrow> rat \<Rightarrow> rat \<Rightarrow> unbranching_path list" where
  "exLoopPaths cE cL cX =
     [mkPath 0 (SeqId 1 True) 1000 cE, mkPath 1 (SeqId 1 False) 1000 cE,
      mkPath 2 (SeqId 2 True) 500 cL, mkPath 3 (SeqId 2 False) 500 cL,
      mkPath 4 (SeqId 3 True) 1000 cX, mkPath 5 (SeqId 3 False) 1000 cX]"

text \<open>
  Two bubbles in a row on both strands: \<open>E \<rightarrow> (A | B) \<rightarrow> M \<rightarrow> (C | D) \<rightarrow> X\<close> over the nodes
  0 to 5, with edges \<open>E = 0\<close>, \<open>A = 2\<close>, \<open>B = 4\<close>, \<open>M = 6\<close>, \<open>C = 8\<close>, \<open>D = 10\<close>, \<open>X = 12\<close>,
  and the twins over the nodes 6 to 11. \<open>M\<close> and \<open>X\<close> are shorter than \<open>C\<close> and \<open>D\<close>.
  \<open>exChainPaths\<close> has one path for each edge; \<open>exChainPaths2\<close> is the path list of the
  graph after \<open>A\<close> has been separated, where \<open>E\<close>, \<open>B\<close> and \<open>M\<close> form one path.
\<close>

definition exChain :: repeat_graph where
  "exChain =
     \<lparr>nodeTab = tabOf (mkNode [] [])
        [mkNode [] [0], mkNode [0] [2, 4], mkNode [2, 4] [6], mkNode [6] [8, 10],
         mkNode [8, 10] [12], mkNode [12] [],
         mkNode [] [13], mkNode [13] [9, 11], mkNode [9, 11] [7], mkNode [7] [3, 5],
         mkNode [3, 5] [1], mkNode [1] []],
      nextNode = 12,
      edgeTab = tabOf (mkEdge (SeqId 0 True) 0 0 0 0 False)
        [mkEdge (SeqId 1 True) 0 1 1000 30 False, mkEdge (SeqId 1 False) 10 11 1000 30 False,
         mkEdge (SeqId 2 True) 1 2 100 10 False, mkEdge (SeqId 2 False) 9 10 100 10 False,
         mkEdge (SeqId 3 True) 1 2 100 20 False, mkEdge (SeqId 3 False) 9 10 100 20 False,
         mkEdge (SeqId 4 True) 2 3 50 30 False, mkEdge (SeqId 4 False) 8 9 50 30 False,
         mkEdge (SeqId 5 True) 3 4 200 10 False, mkEdge (SeqId 5 False) 7 8 200 10 False,
         mkEdge (SeqId 6 True) 3 4 200 20 False, mkEdge (SeqId 6 False) 7 8 200 20 False,
         mkEdge (SeqId 7 True) 4 5 50 30 False, mkEdge (SeqId 7 False) 6 7 50 30 False],
      complementEdge = twinOf\<rparr>"

definition exChainPaths :: "unbranching_path list" where
  "exChainPaths =
     [mkPath 0 (SeqId 1 True) 1000 30, mkPath 1 (SeqId 1 False) 1000 30,
      mkPath 2 (SeqId 2 True) 100 10, mkPath 3 (SeqId 2 False) 100 10,
      mkPath 4 (SeqId 3 True) 100 20, mkPath 5 (SeqId 3 False) 100 20,
      mkPath 6 (SeqId 4 True) 50 30, mkPath 7 (SeqId 4 False) 50 30,
      mkPath 8 (SeqId 5 True) 200 10, mkPath 9 (SeqId 5 False) 200 10,
      mkPath 10 (SeqId 6 True) 200 20, mkPath 11 (SeqId 6 False) 200 20,
      mkPath 12 (SeqId 7 True) 50 30, mkPath 13 (SeqId 7 False) 50 30]"

definition exChainPaths2 :: "unbranching_path list" where
  "exChainPaths2 =
     [\<lparr>pfront = 0, ptail = [4, 6], pid = SeqId 1 True, plength = 1150, pcov = 30\<rparr>,
      \<lparr>pfront = 7, ptail = [5, 1], pid = SeqId 1 False, plength = 1150, pcov = 30\<rparr>,
      mkPath 2 (SeqId 2 True) 100 10, mkPath 3 (SeqId 2 False) 100 10,
      mkPath 8 (SeqId 5 True) 200 10, mkPath 9 (SeqId 5 False) 200 10,
      mkPath 10 (SeqId 6 True) 200 20, mkPath 11 (SeqId 6 False) 200 20,
      mkPath 12 (SeqId 7 True) 50 30, mkPath 13 (SeqId 7 False) 50 30]"

text \<open>
  A graph with a cycle through the start edge, on both strands: \<open>s = 0\<close> from node 0 to
  node 1, \<open>a = 2\<close> from node 1 back to node 0, \<open>b = 4\<close> and \<open>c = 6\<close> from node 1 to node 2,
  \<open>e = 8\<close> from node 2 to node 3 and \<open>y = 10\<close> from node 3 back to node 0; \<open>e\<close> and \<open>y\<close>
  form one unbranching path. The reads of \<open>exAlnsTrim\<close> run \<open>s a s b e\<close> and \<open>s c e\<close>,
  those of \<open>exAlnsCrash\<close> run \<open>s b e y s\<close> and \<open>s c e\<close>, two reads each.
\<close>

definition mkAln :: "(edge_ref \<times> int) list \<Rightarrow> graph_alignment" where
  "mkAln xs = map (\<lambda>(e, c). \<lparr>alnEdge = e, curEnd = c\<rparr>) xs"

definition exHaplo :: repeat_graph where
  "exHaplo =
     \<lparr>nodeTab = tabOf (mkNode [] [])
        [mkNode [2, 10] [0], mkNode [0] [2, 4, 6], mkNode [4, 6] [8], mkNode [8] [10],
         mkNode [1] [3, 11], mkNode [3, 5, 7] [1], mkNode [9] [5, 7], mkNode [11] [9]],
      nextNode = 8,
      edgeTab = tabOf (mkEdge (SeqId 0 True) 0 0 0 0 False)
        [mkEdge (SeqId 1 True) 0 1 1000 30 False, mkEdge (SeqId 1 False) 5 4 1000 30 False,
         mkEdge (SeqId 2 True) 1 0 500 10 False, mkEdge (SeqId 2 False) 4 5 500 10 False,
         mkEdge (SeqId 3 True) 1 2 500 10 False, mkEdge (SeqId 3 False) 6 5 500 10 False,
         mkEdge (SeqId 4 True) 1 2 500 10 False, mkEdge (SeqId 4 False) 6 5 500 10 False,
         mkEdge (SeqId 5 True) 2 3 1000 20 False, mkEdge (SeqId 5 False) 7 6 1000 20 False,
         mkEdge (SeqId 6 True) 3 0 1000 20 False, mkEdge (SeqId 6 False) 4 7 1000 20 False],
      complementEdge = twinOf\<rparr>"

definition exHaploPaths :: "unbranching_path list" where
  "exHaploPaths =
     [mkPath 0 (SeqId 1 True) 1000 30, mkPath 1 (SeqId 1 False) 1000 30,
      mkPath 2 (SeqId 2 True) 500 10, mkPath 3 (SeqId 2 False) 500 10,
      mkPath 4 (SeqId 3 True) 500 10, mkPath 5 (SeqId 3 False) 500 10,
      mkPath 6 (SeqId 4 True) 500 10, mkPath 7 (SeqId 4 False) 500 10,
      \<lparr>pfront = 8, ptail = [10], pid = SeqId 5 True, plength = 2000, pcov = 20\<rparr>,
      \<lparr>pfront = 11, ptail = [9], pid = SeqId 5 False, plength = 2000, pcov = 20\<rparr>]"

definition exAlnsTrim :: "graph_alignment list" where
  "exAlnsTrim =
     [mkAln [(0, 100), (2, 200), (0, 300), (4, 400), (8, 500)],
      mkAln [(0, 100), (2, 200), (0, 300), (4, 400), (8, 500)],
      mkAln [(0, 100), (6, 200), (8, 300)],
      mkAln [(0, 100), (6, 200), (8, 300)]]"

definition exAlnsCrash :: "graph_alignment list" where
  "exAlnsCrash =
     [mkAln [(0, 100), (4, 200), (8, 300), (10, 400), (0, 500)],
      mkAln [(0, 100), (4, 200), (8, 300), (10, 400), (0, 500)],
      mkAln [(0, 100), (6, 200), (8, 300)],
      mkAln [(0, 100), (6, 200), (8, 300)]]"

section \<open>Properties\<close>

lemmas ex_defs = tabOf_def mkEdge_def mkNode_def mkPath_def twinOf_def exBulge_def exBulgePaths_def
  path_edges_def pback_def pathNodeLeft_def pathNodeRight_def isLooped_def twoPaths_def
  findEntrance_def findExit_def bulgeDegreeOk_def bulgeCandidate_def
  exLoop_def exLoopPaths_def findLoopEntrance_def findLoopExit_def loopDegreeOk_def loopCandidate_def

lemmas run_defs = collapseHeterozygousBulges_def bulgeDetect_def bulgeApply_def markPath_def
  markEdge_def absorbEdge_def upd_edge_def upd_node_def addNode_def vecRemove_def bulgeCommit_def
  separatePath_def collapseHeterozygousLoops_def loopDetect_def loopApply_def loopCommit_def
  unrollLoop_def removeLoop_def

lemmas path_defs = unbranchingPathsOk_def graphCoherent_def pathsWf_def pathsInGraph_def pathsCover_def
  unbranchingNode_def maximalPath_def pathAttributesOk_def twinPathOf_def

subsection \<open>Loops and field lookups\<close>

lemma foldE_invariant:
  assumes "foldE f xs s = Inr t" and "P s"
    and "\<And>x a b. P a \<Longrightarrow> f x a = Inr b \<Longrightarrow> P b"
  shows "P t"
  using assms(1,2)
proof (induction xs arbitrary: s)
  case Nil
  then show ?case by simp
next
  case (Cons x xs)
  then show ?case
    by (auto split: sum.splits intro: assms(3))
qed

lemma fold_invariant:
  assumes "P s" and "\<And>x a. P a \<Longrightarrow> P (f x a)"
  shows "P (fold f xs s)"
  using assms(1) by (induction xs arbitrary: s) (auto intro: assms(2))

lemma upd_edge_fields [simp]:
  "nodeTab (upd_edge e f g) = nodeTab g"
  "nextNode (upd_edge e f g) = nextNode g"
  "complementEdge (upd_edge e f g) = complementEdge g"
  "edgeTab (upd_edge e f g) x = (if x = e then f (edgeTab g e) else edgeTab g x)"
  by (simp_all add: upd_edge_def)

lemma upd_node_fields [simp]:
  "edgeTab (upd_node n f g) = edgeTab g"
  "nextNode (upd_node n f g) = nextNode g"
  "complementEdge (upd_node n f g) = complementEdge g"
  "nodeTab (upd_node n f g) x = (if x = n then f (nodeTab g n) else nodeTab g x)"
  by (simp_all add: upd_node_def)

lemma addNode_fields [simp]:
  "fst (addNode g) = nextNode g"
  "edgeTab (snd (addNode g)) = edgeTab g"
  "nextNode (snd (addNode g)) = Suc (nextNode g)"
  "complementEdge (snd (addNode g)) = complementEdge g"
  "nodeTab (snd (addNode g)) x = (if x = nextNode g then \<lparr>inEdges = [], outEdges = []\<rparr> else nodeTab g x)"
  by (simp_all add: addNode_def)

lemma markEdge_fields [simp]:
  "nodeTab (markEdge v e g) = nodeTab g"
  "nextNode (markEdge v e g) = nextNode g"
  "complementEdge (markEdge v e g) = complementEdge g"
  "altHaplotype (edgeTab (markEdge v e g) x)
     = (if x = e \<or> x = complementEdge g e then v else altHaplotype (edgeTab g x))"
  "meanCoverage (edgeTab (markEdge v e g) x) = meanCoverage (edgeTab g x)"
  "nodeLeft (edgeTab (markEdge v e g) x) = nodeLeft (edgeTab g x)"
  "nodeRight (edgeTab (markEdge v e g) x) = nodeRight (edgeTab g x)"
  "selfComplement (edgeTab (markEdge v e g) x) = selfComplement (edgeTab g x)"
  by (simp_all add: markEdge_def)

lemma absorbEdge_fields [simp]:
  "nodeTab (absorbEdge c e g) = nodeTab g"
  "nextNode (absorbEdge c e g) = nextNode g"
  "complementEdge (absorbEdge c e g) = complementEdge g"
  "altHaplotype (edgeTab (absorbEdge c e g) x)
     = (if x = e \<or> x = complementEdge g e then False else altHaplotype (edgeTab g x))"
  "meanCoverage (edgeTab (absorbEdge c e g) x)
     = (if x = e \<and> x = complementEdge g e then meanCoverage (edgeTab g x) + c + c
        else if x = e \<or> x = complementEdge g e then meanCoverage (edgeTab g x) + c
        else meanCoverage (edgeTab g x))"
  "nodeLeft (edgeTab (absorbEdge c e g) x) = nodeLeft (edgeTab g x)"
  "nodeRight (edgeTab (absorbEdge c e g) x) = nodeRight (edgeTab g x)"
  "selfComplement (edgeTab (absorbEdge c e g) x) = selfComplement (edgeTab g x)"
  by (simp_all add: absorbEdge_def Let_def)

subsection \<open>Mask mode of the bulge pass changes flags only\<close>

lemma onlyFlagsChanged_refl: "onlyFlagsChanged g g"
  by (simp add: onlyFlagsChanged_def)

lemma edge_upto_flag:
  "(x = y\<lparr>altHaplotype := altHaplotype x\<rparr>) \<longleftrightarrow>
   (edgeId x = edgeId y \<and> nodeLeft x = nodeLeft y \<and> nodeRight x = nodeRight y \<and>
    edgeLength x = edgeLength y \<and> meanCoverage x = meanCoverage y \<and>
    selfComplement x = selfComplement y)" for x y :: graph_edge
  by (cases x, cases y) auto

lemma onlyFlagsChanged_markEdge:
  "onlyFlagsChanged g0 g \<Longrightarrow> onlyFlagsChanged g0 (markEdge v e g)"
  by (simp add: onlyFlagsChanged_def markEdge_def edge_upto_flag)

lemma onlyFlagsChanged_markPath:
  "onlyFlagsChanged g0 g \<Longrightarrow> onlyFlagsChanged g0 (markPath p g)"
  unfolding markPath_def by (rule fold_invariant) (auto intro: onlyFlagsChanged_markEdge)

lemma onlyFlagsChanged_bulgeDetect:
  assumes "onlyFlagsChanged g0 (fst st)" and "bulgeDetect False m ps path st = Inr st'"
  shows "onlyFlagsChanged g0 (fst st')"
  using assms
  by (auto simp: bulgeDetect_def bulgeApply_def Let_def
      split: prod.splits sum.splits option.splits intro!: onlyFlagsChanged_markPath)

text \<open>
  Claim C6. In mask mode \<^verbatim>\<open>collapseHeterozygousBulges\<close> leaves the node table (every
  \<^verbatim>\<open>inEdges\<close> and \<^verbatim>\<open>outEdges\<close> list), the set of nodes and the twin lookup as they
  were, and the only field of an edge it may change is \<^verbatim>\<open>altHaplotype\<close>.
\<close>

theorem bulge_mask_frame:
  assumes "collapseHeterozygousBulges False MAX_BUBBLE_LEN ps g = Inr (g', k)"
  shows "onlyFlagsChanged g g'"
proof -
  from assms obtain sep where f: "foldE (bulgeDetect False MAX_BUBBLE_LEN ps) ps (g, {}, 0) = Inr (g', sep, k)"
    by (auto simp: collapseHeterozygousBulges_def split: sum.splits prod.splits)
  have "onlyFlagsChanged g (fst (g', sep, k))"
    by (rule foldE_invariant [OF f, where P = "\<lambda>st. onlyFlagsChanged g (fst st)"])
       (auto simp: onlyFlagsChanged_refl intro: onlyFlagsChanged_bulgeDetect)
  then show ?thesis by simp
qed

theorem bulge_mask_frame_witness:
  "(case collapseHeterozygousBulges False 50000 (exBulgePaths 30 10 20 30) (exBulge 30 10 20 30 False False) of
      Inr (g', k) \<Rightarrow> onlyFlagsChanged (exBulge 30 10 20 30 False False) g' \<and> k = 1
    | Inl e \<Rightarrow> False)"
proof -
  obtain g' where r: "collapseHeterozygousBulges False 50000 (exBulgePaths 30 10 20 30)
      (exBulge 30 10 20 30 False False) = Inr (g', 1)"
    by (simp add: ex_defs run_defs)
  from bulge_mask_frame [OF r] r show ?thesis by simp
qed

subsection \<open>Twins are written in lockstep\<close>






















subsection \<open>The coverage test of the bulge pass\<close>




subsection \<open>The mask counter of the bulge pass\<close>

text \<open>
  Claim C3, as stated, fails: with branch \<open>A\<close> already flagged and branch \<open>B\<close> not, the
  bubble of the example is accepted and the pass in mask mode returns 1, so the counter
  was incremented although one branch was flagged.
\<close>

theorem bulge_mask_counter_counterexample:
  "altHaplotype (edgeTab (exBulge 30 10 20 30 True False) 2) \<and>
   bulgeCandidate 50000 (exBulgePaths 30 10 20 30) (exBulge 30 10 20 30 True False) {}
       (mkPath 2 (SeqId 2 True) 500 10)
     = Inr (Some (mkPath 2 (SeqId 2 True) 500 10, mkPath 4 (SeqId 3 True) 500 20)) \<and>
   map_sum id snd (collapseHeterozygousBulges False 50000 (exBulgePaths 30 10 20 30)
       (exBulge 30 10 20 30 True False)) = Inr 1"
proof -
  have "altHaplotype (edgeTab (exBulge 30 10 20 30 True False) 2)"
    by (simp add: ex_defs)
  moreover have "bulgeCandidate 50000 (exBulgePaths 30 10 20 30) (exBulge 30 10 20 30 True False) {}
       (mkPath 2 (SeqId 2 True) 500 10)
     = Inr (Some (mkPath 2 (SeqId 2 True) 500 10, mkPath 4 (SeqId 3 True) 500 20))"
    by (simp add: ex_defs)
  moreover have "map_sum id snd (collapseHeterozygousBulges False 50000 (exBulgePaths 30 10 20 30)
       (exBulge 30 10 20 30 True False)) = Inr 1"
    by (simp add: ex_defs run_defs)
  ultimately show ?thesis by blast
qed

text \<open>
  Claim C3, amended. For every accepted bubble the mask counter is incremented exactly
  when the first edge of at least one of the two branches was not flagged before (it
  stays as it is only when both were flagged); in mask mode the pass returns the counter
  the detection loop ends with.
\<close>

theorem bulge_mask_counter:
  "(bulgeCandidate MAX_BUBBLE_LEN ps g toSeparate path = Inr (Some (t0, t1)) \<longrightarrow>
      (\<exists>g' toSeparate'.
         bulgeDetect removeAlternatives MAX_BUBBLE_LEN ps path (g, toSeparate, numMasked)
         = Inr (g', toSeparate',
                if \<not> altHaplotype (edgeTab g (pfront t0)) \<or> \<not> altHaplotype (edgeTab g (pfront t1))
                then Suc numMasked else numMasked))) \<and>
   (collapseHeterozygousBulges False MAX_BUBBLE_LEN ps g = Inr (g1, k) \<longrightarrow>
      (\<exists>toSeparate'. foldE (bulgeDetect False MAX_BUBBLE_LEN ps) ps (g, {}, 0) = Inr (g1, toSeparate', k)))"
  by (auto simp: bulgeDetect_def bulgeApply_def Let_def collapseHeterozygousBulges_def
      split: sum.splits prod.splits)

theorem bulge_mask_counter_witness:
  "bulgeCandidate 50000 (exBulgePaths 30 10 20 30) (exBulge 30 10 20 30 True False) {}
       (mkPath 2 (SeqId 2 True) 500 10)
     = Inr (Some (mkPath 2 (SeqId 2 True) 500 10, mkPath 4 (SeqId 3 True) 500 20)) \<and>
   map_sum id (snd \<circ> snd) (bulgeDetect False 50000 (exBulgePaths 30 10 20 30)
       (mkPath 2 (SeqId 2 True) 500 10) (exBulge 30 10 20 30 True False, {}, 0)) = Inr 1"
proof -
  let ?g = "exBulge 30 10 20 30 True False"
  let ?ps = "exBulgePaths 30 10 20 30"
  let ?A = "mkPath 2 (SeqId 2 True) 500 10"
  let ?B = "mkPath 4 (SeqId 3 True) 500 20"
  have h: "bulgeCandidate 50000 ?ps ?g {} ?A = Inr (Some (?A, ?B))"
    by (simp add: ex_defs)
  have a: "altHaplotype (edgeTab ?g (pfront ?A))" "\<not> altHaplotype (edgeTab ?g (pfront ?B))"
    by (simp_all add: ex_defs)
  from bulge_mask_counter [of 50000 ?ps ?g "{}" ?A ?A ?B False 0, THEN conjunct1, rule_format, OF h]
  obtain g' s' where "bulgeDetect False 50000 ?ps ?A (?g, {}, 0) = Inr (g', s', Suc 0)"
    using a by auto
  with h show ?thesis by simp
qed

subsection \<open>The tests and the staging policy of the loop pass\<close>





subsection \<open>The entrance and exit lookups find a path\<close>

lemma chainOk_not_last:
  assumes "chainOk g es" and "e \<in> set es" and "e \<noteq> last es"
  shows "length (outEdges (nodeTab g (nodeRight (edgeTab g e)))) = 1"
  using assms
proof (induction g es rule: chainOk.induct)
  case (1 g e1 e2 es)
  then show ?case by (cases "e = e1") auto
qed auto

lemma chainOk_not_first:
  assumes "chainOk g es" and "e \<in> set es" and "e \<noteq> hd es"
  shows "length (inEdges (nodeTab g (nodeLeft (edgeTab g e)))) = 1"
  using assms
proof (induction g es rule: chainOk.induct)
  case (1 g e1 e2 es)
  then show ?case by (cases "e = e2") auto
qed auto

lemma filter_last_Some:
  assumes "c \<in> set ps" and "P c"
  shows "(case filter P ps of [] \<Rightarrow> None | c # cs \<Rightarrow> Some (last (c # cs))) \<noteq> None"
proof -
  from assms have "filter P ps \<noteq> []"
    by (auto simp: filter_empty_conv)
  then show ?thesis by (cases "filter P ps") auto
qed

lemma ends_at:
  assumes co: "graphCoherent g" and wf: "pathsWf g ps"
    and n: "n < nextNode g" and e: "e \<in> set (inEdges (nodeTab g n))"
    and br: "length (outEdges (nodeTab g n)) \<noteq> 1"
  shows "\<exists>p \<in> set ps. pback p = e \<and> pathNodeRight g p = n"
proof -
  from wf n e obtain p where p: "p \<in> set ps" "e \<in> set (path_edges p)"
    by (fastforce simp: pathsWf_def pathsCover_def)
  from co n e have r: "nodeRight (edgeTab g e) = n"
    by (auto simp: graphCoherent_def)
  from wf p have ch: "chainOk g (path_edges p)"
    by (auto simp: pathsWf_def)
  have "e = last (path_edges p)"
    using chainOk_not_last [OF ch p(2)] r br by auto
  then have "pback p = e"
    by (simp add: pback_def path_edges_def)
  with r p show ?thesis
    by (auto simp: pathNodeRight_def)
qed

lemma starts_at:
  assumes co: "graphCoherent g" and wf: "pathsWf g ps"
    and n: "n < nextNode g" and e: "e \<in> set (outEdges (nodeTab g n))"
    and br: "length (inEdges (nodeTab g n)) \<noteq> 1"
  shows "\<exists>p \<in> set ps. pfront p = e \<and> pathNodeLeft g p = n"
proof -
  from wf n e obtain p where p: "p \<in> set ps" "e \<in> set (path_edges p)"
    by (fastforce simp: pathsWf_def pathsCover_def)
  from co n e have r: "nodeLeft (edgeTab g e) = n"
    by (auto simp: graphCoherent_def)
  from wf p have ch: "chainOk g (path_edges p)"
    by (auto simp: pathsWf_def)
  have "e = hd (path_edges p)"
    using chainOk_not_first [OF ch p(2)] r br by auto
  then have "pfront p = e"
    by (simp add: path_edges_def)
  with r p show ?thesis
    by (auto simp: pathNodeLeft_def)
qed

lemma length2_distinct:
  assumes "length xs = 2" and "distinct xs"
  obtains a b where "a \<in> set xs" "b \<in> set xs" "a \<noteq> b"
proof -
  from assms(1) obtain a b where "xs = [a, b]"
    by (cases xs; cases "tl xs") auto
  with assms(2) that show ?thesis by auto
qed

lemma pid_inj:
  assumes "distinct (map pid ps)" and "p \<in> set ps" and "q \<in> set ps" and "pid p = pid q"
  shows "p = q"
  using assms by (meson distinct_map inj_onD)

lemma bulge_lookups:
  assumes co: "graphCoherent g" and wf: "pathsWf g ps"
    and tp: "twoPaths ps g path = [t0, t1]" and deg: "bulgeDegreeOk g t0"
  shows "findEntrance ps g (pathNodeLeft g t0) \<noteq> None \<and> findExit ps g (pathNodeRight g t0) \<noteq> None"
proof -
  have "t0 \<in> set (twoPaths ps g path)"
    by (simp add: tp)
  then have t0: "t0 \<in> set ps"
    by (simp add: twoPaths_def)
  with wf have nl: "pathNodeLeft g t0 < nextNode g" and nr: "pathNodeRight g t0 < nextNode g"
    by (auto simp: pathsWf_def pathsInGraph_def pathNodeLeft_def pathNodeRight_def path_edges_def pback_def)
  from deg obtain e where e: "e \<in> set (inEdges (nodeTab g (pathNodeLeft g t0)))"
    by (cases "inEdges (nodeTab g (pathNodeLeft g t0))") (auto simp: bulgeDegreeOk_def)
  from deg have "length (outEdges (nodeTab g (pathNodeLeft g t0))) \<noteq> 1"
    by (simp add: bulgeDegreeOk_def)
  from ends_at [OF co wf nl e this] obtain p where "p \<in> set ps" "pathNodeRight g p = pathNodeLeft g t0"
    by blast
  then have 1: "findEntrance ps g (pathNodeLeft g t0) \<noteq> None"
    unfolding findEntrance_def by (rule filter_last_Some)
  from deg obtain x where x: "x \<in> set (outEdges (nodeTab g (pathNodeRight g t0)))"
    by (cases "outEdges (nodeTab g (pathNodeRight g t0))") (auto simp: bulgeDegreeOk_def)
  from deg have "length (inEdges (nodeTab g (pathNodeRight g t0))) \<noteq> 1"
    by (simp add: bulgeDegreeOk_def)
  from starts_at [OF co wf nr x this] obtain q where "q \<in> set ps" "pathNodeLeft g q = pathNodeRight g t0"
    by blast
  then have 2: "findExit ps g (pathNodeRight g t0) \<noteq> None"
    unfolding findExit_def by (rule filter_last_Some)
  from 1 2 show ?thesis ..
qed

lemma loop_lookups:
  assumes co: "graphCoherent g" and wf: "pathsWf g ps"
    and lp: "loop \<in> set ps" and deg: "loopDegreeOk g loop"
  shows "findLoopEntrance ps g (pathNodeLeft g loop) loop \<noteq> None \<and>
         findLoopExit ps g (pathNodeLeft g loop) loop \<noteq> None"
proof -
  let ?n = "pathNodeLeft g loop"
  from wf lp have n: "?n < nextNode g"
    by (auto simp: pathsWf_def pathsInGraph_def pathNodeLeft_def path_edges_def)
  from wf have ids: "distinct (map pid ps)"
    by (simp add: pathsWf_def)
  from co n have di: "distinct (inEdges (nodeTab g ?n))" and do: "distinct (outEdges (nodeTab g ?n))"
    by (auto simp: graphCoherent_def)
  from deg have li: "length (inEdges (nodeTab g ?n)) = 2" and lo: "length (outEdges (nodeTab g ?n)) = 2"
    by (simp_all add: loopDegreeOk_def)
  from li lo have bi: "length (inEdges (nodeTab g ?n)) \<noteq> 1" and bo: "length (outEdges (nodeTab g ?n)) \<noteq> 1"
    by simp_all
  have 1: "findLoopEntrance ps g ?n loop \<noteq> None"
  proof -
    from length2_distinct [OF li di] obtain a b
      where ab: "a \<in> set (inEdges (nodeTab g ?n))" "b \<in> set (inEdges (nodeTab g ?n))" "a \<noteq> b"
      by blast
    from ends_at [OF co wf n ab(1) bo] obtain pa
      where pa: "pa \<in> set ps" "pback pa = a" "pathNodeRight g pa = ?n" by blast
    from ends_at [OF co wf n ab(2) bo] obtain pb
      where pb: "pb \<in> set ps" "pback pb = b" "pathNodeRight g pb = ?n" by blast
    from pa pb ab(3) have "pa \<noteq> pb" by auto
    then have "pid loop \<noteq> pid pa \<or> pid loop \<noteq> pid pb"
      using pid_inj [OF ids lp pa(1)] pid_inj [OF ids lp pb(1)] by auto
    then obtain c where "c \<in> set ps" "pathNodeRight g c = ?n \<and> pid loop \<noteq> pid c"
      using pa pb by blast
    then show ?thesis
      unfolding findLoopEntrance_def by (rule filter_last_Some)
  qed
  have 2: "findLoopExit ps g ?n loop \<noteq> None"
  proof -
    from length2_distinct [OF lo do] obtain a b
      where ab: "a \<in> set (outEdges (nodeTab g ?n))" "b \<in> set (outEdges (nodeTab g ?n))" "a \<noteq> b"
      by blast
    from starts_at [OF co wf n ab(1) bi] obtain pa
      where pa: "pa \<in> set ps" "pfront pa = a" "pathNodeLeft g pa = ?n" by blast
    from starts_at [OF co wf n ab(2) bi] obtain pb
      where pb: "pb \<in> set ps" "pfront pb = b" "pathNodeLeft g pb = ?n" by blast
    from pa pb ab(3) have "pa \<noteq> pb" by auto
    then have "pid loop \<noteq> pid pa \<or> pid loop \<noteq> pid pb"
      using pid_inj [OF ids lp pa(1)] pid_inj [OF ids lp pb(1)] by auto
    then obtain c where "c \<in> set ps" "pathNodeLeft g c = ?n \<and> pid loop \<noteq> pid c"
      using pa pb by blast
    then show ?thesis
      unfolding findLoopExit_def by (rule filter_last_Some)
  qed
  from 1 2 show ?thesis ..
qed

lemma sameTopo_refl: "sameTopo g g"
  by (simp add: sameTopo_def)

lemma sameTopo_trans: "sameTopo g g1 \<Longrightarrow> sameTopo g1 g2 \<Longrightarrow> sameTopo g g2"
  by (simp add: sameTopo_def)

lemma sameTopo_markEdge: "sameTopo g (markEdge v e g)"
  by (simp add: sameTopo_def)

lemma sameTopo_absorbEdge: "sameTopo g (absorbEdge c e g)"
  by (simp add: sameTopo_def)

lemma sameTopo_fold:
  assumes "\<And>x a. sameTopo a (f x a)"
  shows "sameTopo g (fold f xs g)"
  by (rule fold_invariant [where P = "sameTopo g", OF sameTopo_refl])
     (rule sameTopo_trans [OF _ assms])

lemma sameTopo_markPath: "sameTopo g (markPath p g)"
  unfolding markPath_def by (rule sameTopo_fold) (rule sameTopo_markEdge)

lemma sameTopo_bulgeApply: "sameTopo (fst st) (fst (bulgeApply r t0 t1 st))"
proof -
  obtain g sep n where st: "st = (g, sep, n)"
    by (cases st) auto
  have m: "sameTopo g (markPath t1 (markPath t0 g))"
    by (rule sameTopo_trans [OF sameTopo_markPath sameTopo_markPath])
  have "sameTopo g (fold (absorbEdge (pcov t0)) (path_edges t1) (markPath t1 (markPath t0 g)))"
    by (rule sameTopo_trans [OF m]) (rule sameTopo_fold, rule sameTopo_absorbEdge)
  with m show ?thesis
    by (simp add: st bulgeApply_def Let_def)
qed

lemma sameTopo_loopApply: "sameTopo (fst st) (fst (loopApply L E X st))"
  using sameTopo_markPath by (cases st) (auto simp: loopApply_def Let_def)

lemma chainOk_sameTopo: "sameTopo g g' \<Longrightarrow> chainOk g' es = chainOk g es"
  by (induction g es rule: chainOk.induct) (auto simp: sameTopo_def)

lemma wf_sameTopo:
  assumes "sameTopo g g'"
  shows "graphCoherent g' = graphCoherent g" and "pathsWf g' ps = pathsWf g ps"
  using assms chainOk_sameTopo [OF assms]
  by (simp_all add: graphCoherent_def pathsWf_def pathsInGraph_def pathsCover_def sameTopo_def)

lemma bulgeCandidate_no_error:
  assumes "graphCoherent g" and "pathsWf g ps"
  shows "bulgeCandidate m ps g sep path \<noteq> Inl e"
  using bulge_lookups [OF assms]
  by (auto simp: bulgeCandidate_def split: list.splits option.splits) fastforce+

lemma loopCandidate_no_error:
  assumes "graphCoherent g" and "pathsWf g ps" and "loop \<in> set ps"
  shows "loopCandidate ps g loop \<noteq> Inl e"
  using loop_lookups [OF assms]
  by (auto simp: loopCandidate_def split: option.splits)

lemma foldE_total:
  assumes "P s" and "\<And>x a. x \<in> set xs \<Longrightarrow> P a \<Longrightarrow> \<exists>b. f x a = Inr b \<and> P b"
  shows "\<exists>t. foldE f xs s = Inr t \<and> P t"
  using assms
proof (induction xs arbitrary: s)
  case Nil
  then show ?case by simp
next
  case (Cons x xs)
  from Cons.prems obtain b where b: "f x s = Inr b" "P b"
    by (meson list.set_intros(1))
  from Cons.IH [OF b(2)] Cons.prems(2) b(1) show ?case
    by auto
qed

lemma bulgeDetect_total:
  assumes "graphCoherent (fst st) \<and> pathsWf (fst st) ps"
  shows "\<exists>st'. bulgeDetect r m ps path st = Inr st' \<and> (graphCoherent (fst st') \<and> pathsWf (fst st') ps)"
proof -
  obtain g sep n where st: "st = (g, sep, n)"
    by (cases st) auto
  show ?thesis
  proof (cases "bulgeCandidate m ps g sep path")
    case (Inl e)
    with bulgeCandidate_no_error assms st show ?thesis by auto
  next
    case (Inr c)
    show ?thesis
    proof (cases c)
      case None
      with Inr assms st show ?thesis by (simp add: bulgeDetect_def)
    next
      case (Some tt)
      obtain t0 t1 where tt: "tt = (t0, t1)" by (cases tt)
      from wf_sameTopo [OF sameTopo_bulgeApply [of st r t0 t1]] assms
      have "graphCoherent (fst (bulgeApply r t0 t1 st)) \<and> pathsWf (fst (bulgeApply r t0 t1 st)) ps"
        by simp
      with Inr Some tt st show ?thesis by (simp add: bulgeDetect_def)
    qed
  qed
qed

lemma loopDetect_total:
  assumes "graphCoherent (fst st) \<and> pathsWf (fst st) ps" and "loop \<in> set ps"
  shows "\<exists>st'. loopDetect ps loop st = Inr st' \<and> (graphCoherent (fst st') \<and> pathsWf (fst st') ps)"
proof -
  obtain g un rm n where st: "st = (g, un, rm, n)"
    by (cases st) auto
  show ?thesis
  proof (cases "loopCandidate ps g loop")
    case (Inl e)
    with loopCandidate_no_error assms st show ?thesis by auto
  next
    case (Inr c)
    show ?thesis
    proof (cases c)
      case None
      with Inr assms st show ?thesis by (simp add: loopDetect_def)
    next
      case (Some tt)
      obtain E X where tt: "tt = (E, X)" by (cases tt)
      from wf_sameTopo [OF sameTopo_loopApply [of st loop E X]] assms
      have "graphCoherent (fst (loopApply loop E X st)) \<and> pathsWf (fst (loopApply loop E X st)) ps"
        by simp
      with Inr Some tt st show ?thesis by (simp add: loopDetect_def)
    qed
  qed
qed

lemma bulges_total:
  assumes "graphCoherent g" and "pathsWf g ps"
  shows "\<exists>r. collapseHeterozygousBulges removeAlternatives m ps g = Inr r"
proof -
  have "\<exists>t. foldE (bulgeDetect removeAlternatives m ps) ps (g, {}, 0) = Inr t \<and>
            (graphCoherent (fst t) \<and> pathsWf (fst t) ps)"
    by (rule foldE_total) (use assms bulgeDetect_total in auto)
  then show ?thesis
    by (auto simp: collapseHeterozygousBulges_def)
qed

lemma loops_detect_total:
  assumes "graphCoherent g" and "pathsWf g ps"
  shows "\<exists>t. foldE (loopDetect ps) ps (g, {}, {}, 0) = Inr t"
proof -
  have "\<exists>t. foldE (loopDetect ps) ps (g, {}, {}, 0) = Inr t \<and>
            (graphCoherent (fst t) \<and> pathsWf (fst t) ps)"
    by (rule foldE_total) (use assms loopDetect_total in auto)
  then show ?thesis by blast
qed

text \<open>
  Claim C10. On a coherent graph whose path list has a path through every edge, each
  path a chain through nodes of in-degree and out-degree 1, and distinct path ids: a
  bulge candidate that passes the degree test has an entrance and an exit path, and so
  has a loop that passes its degree test; hence the bulge pass never reads a null
  pointer and returns, and the detection loop of the loop pass runs to its end.
\<close>

theorem lookups_find_paths:
  assumes "graphCoherent g" and "pathsWf g ps"
  shows "(twoPaths ps g path = [t0, t1] \<and> bulgeDegreeOk g t0 \<longrightarrow>
            findEntrance ps g (pathNodeLeft g t0) \<noteq> None \<and>
            findExit ps g (pathNodeRight g t0) \<noteq> None) \<and>
         (loop \<in> set ps \<and> loopDegreeOk g loop \<longrightarrow>
            findLoopEntrance ps g (pathNodeLeft g loop) loop \<noteq> None \<and>
            findLoopExit ps g (pathNodeLeft g loop) loop \<noteq> None) \<and>
         (\<exists>r. collapseHeterozygousBulges removeAlternatives MAX_BUBBLE_LEN ps g = Inr r) \<and>
         (\<exists>t. foldE (loopDetect ps) ps (g, {}, {}, 0) = Inr t)"
  using bulge_lookups [OF assms] loop_lookups [OF assms] bulges_total [OF assms]
    loops_detect_total [OF assms] by blast

theorem lookups_find_paths_witness:
  "graphCoherent (exBulge 30 10 20 30 False False) \<and>
   pathsWf (exBulge 30 10 20 30 False False) (exBulgePaths 30 10 20 30) \<and>
   bulgeDegreeOk (exBulge 30 10 20 30 False False) (mkPath 2 (SeqId 2 True) 500 10) \<and>
   findEntrance (exBulgePaths 30 10 20 30) (exBulge 30 10 20 30 False False) 1 \<noteq> None \<and>
   findExit (exBulgePaths 30 10 20 30) (exBulge 30 10 20 30 False False) 2 \<noteq> None \<and>
   graphCoherent (exLoop 20 15 20 False) \<and>
   pathsWf (exLoop 20 15 20 False) (exLoopPaths 20 15 20) \<and>
   loopDegreeOk (exLoop 20 15 20 False) (mkPath 2 (SeqId 2 True) 500 15) \<and>
   findLoopEntrance (exLoopPaths 20 15 20) (exLoop 20 15 20 False) 1 (mkPath 2 (SeqId 2 True) 500 15) \<noteq> None \<and>
   findLoopExit (exLoopPaths 20 15 20) (exLoop 20 15 20 False) 1 (mkPath 2 (SeqId 2 True) 500 15) \<noteq> None"
proof -
  let ?g = "exBulge 30 10 20 30 False False"
  let ?ps = "exBulgePaths 30 10 20 30"
  let ?A = "mkPath 2 (SeqId 2 True) 500 10"
  let ?B = "mkPath 4 (SeqId 3 True) 500 20"
  let ?h = "exLoop 20 15 20 False"
  let ?qs = "exLoopPaths 20 15 20"
  let ?L = "mkPath 2 (SeqId 2 True) 500 15"
  have b1: "graphCoherent ?g" and b2: "pathsWf ?g ?ps"
    by code_simp+
  have b3: "twoPaths ?ps ?g ?A = [?A, ?B]" and b4: "bulgeDegreeOk ?g ?A"
    and b5: "pathNodeLeft ?g ?A = 1" "pathNodeRight ?g ?A = 2"
    by (simp_all add: ex_defs)
  have l1: "graphCoherent ?h" and l2: "pathsWf ?h ?qs"
    by code_simp+
  have l3: "?L \<in> set ?qs" and l4: "loopDegreeOk ?h ?L" and l5: "pathNodeLeft ?h ?L = 1"
    by (simp_all add: ex_defs)
  from lookups_find_paths [OF b1 b2, of ?A ?A ?B, THEN conjunct1] b3 b4 b5
  have b: "findEntrance ?ps ?g 1 \<noteq> None \<and> findExit ?ps ?g 2 \<noteq> None"
    by simp
  from lookups_find_paths [OF l1 l2, of _ _ _ ?L, THEN conjunct2, THEN conjunct1] l3 l4 l5
  have l: "findLoopEntrance ?qs ?h 1 ?L \<noteq> None \<and> findLoopExit ?qs ?h 1 ?L \<noteq> None"
    by simp
  from b1 b2 b4 b l1 l2 l4 l show ?thesis by blast
qed

subsection \<open>A second run of the bulge pass in collapse mode\<close>

lemma tab_lookup:
  assumes "map f [0..<n] = xs" and "i < n"
  shows "f i = xs ! i"
proof -
  from assms(2) have "map f [0..<n] ! i = f i" by simp
  with assms(1) show ?thesis by simp
qed

lemma chain_first_paths: "unbranchingPathsOk exChain exChainPaths"
  by code_simp

lemma chain_first_run:
  "\<exists>g1. collapseHeterozygousBulges True 50000 exChainPaths exChain = Inr (g1, 1) \<and>
     nextNode g1 = 16 \<and> complementEdge g1 = twinOf \<and>
     map (nodeTab g1) [0..<16] =
       [mkNode [] [0], mkNode [0] [4], mkNode [4] [6], mkNode [6] [8, 10],
        mkNode [8, 10] [12], mkNode [12] [],
        mkNode [] [13], mkNode [13] [9, 11], mkNode [9, 11] [7], mkNode [7] [5],
        mkNode [5] [1], mkNode [1] [],
        mkNode [] [2], mkNode [2] [], mkNode [] [3], mkNode [3] []] \<and>
     map (edgeTab g1) [0..<14] =
       [mkEdge (SeqId 1 True) 0 1 1000 30 False, mkEdge (SeqId 1 False) 10 11 1000 30 False,
        mkEdge (SeqId 2 True) 12 13 100 10 True, mkEdge (SeqId 2 False) 14 15 100 10 True,
        mkEdge (SeqId 3 True) 1 2 100 30 False, mkEdge (SeqId 3 False) 9 10 100 30 False,
        mkEdge (SeqId 4 True) 2 3 50 30 False, mkEdge (SeqId 4 False) 8 9 50 30 False,
        mkEdge (SeqId 5 True) 3 4 200 10 False, mkEdge (SeqId 5 False) 7 8 200 10 False,
        mkEdge (SeqId 6 True) 3 4 200 20 False, mkEdge (SeqId 6 False) 7 8 200 20 False,
        mkEdge (SeqId 7 True) 4 5 50 30 False, mkEdge (SeqId 7 False) 6 7 50 30 False]"
  by (simp add: ex_defs run_defs exChain_def exChainPaths_def upt_rec)

lemma chain_second_run:
  assumes nn: "nextNode (g1::repeat_graph) = 16" and ce: "complementEdge g1 = twinOf"
    and nt: "map (nodeTab g1) [0..<16] =
       [mkNode [] [0], mkNode [0] [4], mkNode [4] [6], mkNode [6] [8, 10],
        mkNode [8, 10] [12], mkNode [12] [],
        mkNode [] [13], mkNode [13] [9, 11], mkNode [9, 11] [7], mkNode [7] [5],
        mkNode [5] [1], mkNode [1] [],
        mkNode [] [2], mkNode [2] [], mkNode [] [3], mkNode [3] []]"
    and et: "map (edgeTab g1) [0..<14] =
       [mkEdge (SeqId 1 True) 0 1 1000 30 False, mkEdge (SeqId 1 False) 10 11 1000 30 False,
        mkEdge (SeqId 2 True) 12 13 100 10 True, mkEdge (SeqId 2 False) 14 15 100 10 True,
        mkEdge (SeqId 3 True) 1 2 100 30 False, mkEdge (SeqId 3 False) 9 10 100 30 False,
        mkEdge (SeqId 4 True) 2 3 50 30 False, mkEdge (SeqId 4 False) 8 9 50 30 False,
        mkEdge (SeqId 5 True) 3 4 200 10 False, mkEdge (SeqId 5 False) 7 8 200 10 False,
        mkEdge (SeqId 6 True) 3 4 200 20 False, mkEdge (SeqId 6 False) 7 8 200 20 False,
        mkEdge (SeqId 7 True) 4 5 50 30 False, mkEdge (SeqId 7 False) 6 7 50 30 False]"
  shows "unbranchingPathsOk g1 exChainPaths2"
    and "map_sum id snd (collapseHeterozygousBulges True 50000 exChainPaths2 g1) = Inr 1"
proof -
  note tabs = tab_lookup [OF nt] tab_lookup [OF et]
  show "unbranchingPathsOk g1 exChainPaths2"
    unfolding path_defs
    by (simp add: nn ce tabs exChainPaths2_def mkEdge_def mkNode_def mkPath_def twinOf_def
        path_edges_def pback_def pathNodeLeft_def pathNodeRight_def isLooped_def upt_rec del: set_upt)
  show "map_sum id snd (collapseHeterozygousBulges True 50000 exChainPaths2 g1) = Inr 1"
    by (simp add: nn ce tabs exChainPaths2_def mkEdge_def mkNode_def mkPath_def twinOf_def
        path_edges_def pback_def pathNodeLeft_def pathNodeRight_def isLooped_def twoPaths_def
        findEntrance_def findExit_def bulgeDegreeOk_def bulgeCandidate_def run_defs)
qed

text \<open>
  Claim C7, as stated, fails. In the chain of two bubbles the first run collapses the
  bubble \<open>A | B\<close> and rejects \<open>C | D\<close>, whose branches are longer than its entrance \<open>M\<close>
  and its exit \<open>X\<close>; it returns 1. In the resulting graph \<open>E\<close>, \<open>B\<close> and \<open>M\<close> form one
  path, long enough as an entrance, so the second run, on the path list of that graph,
  collapses \<open>C | D\<close> and returns 1, not 0.
\<close>

theorem bulge_idempotent_counterexample:
  "unbranchingPathsOk exChain exChainPaths \<and>
   (case collapseHeterozygousBulges True 50000 exChainPaths exChain of
      Inr (g1, k) \<Rightarrow>
        k = 1 \<and> unbranchingPathsOk g1 exChainPaths2 \<and>
        map_sum id snd (collapseHeterozygousBulges True 50000 exChainPaths2 g1) = Inr 1
    | Inl e \<Rightarrow> False)"
proof -
  from chain_first_run obtain g1
    where f: "collapseHeterozygousBulges True 50000 exChainPaths exChain = Inr (g1, 1) \<and>
     nextNode g1 = 16 \<and> complementEdge g1 = twinOf \<and>
     map (nodeTab g1) [0..<16] =
       [mkNode [] [0], mkNode [0] [4], mkNode [4] [6], mkNode [6] [8, 10],
        mkNode [8, 10] [12], mkNode [12] [],
        mkNode [] [13], mkNode [13] [9, 11], mkNode [9, 11] [7], mkNode [7] [5],
        mkNode [5] [1], mkNode [1] [],
        mkNode [] [2], mkNode [2] [], mkNode [] [3], mkNode [3] []] \<and>
     map (edgeTab g1) [0..<14] =
       [mkEdge (SeqId 1 True) 0 1 1000 30 False, mkEdge (SeqId 1 False) 10 11 1000 30 False,
        mkEdge (SeqId 2 True) 12 13 100 10 True, mkEdge (SeqId 2 False) 14 15 100 10 True,
        mkEdge (SeqId 3 True) 1 2 100 30 False, mkEdge (SeqId 3 False) 9 10 100 30 False,
        mkEdge (SeqId 4 True) 2 3 50 30 False, mkEdge (SeqId 4 False) 8 9 50 30 False,
        mkEdge (SeqId 5 True) 3 4 200 10 False, mkEdge (SeqId 5 False) 7 8 200 10 False,
        mkEdge (SeqId 6 True) 3 4 200 20 False, mkEdge (SeqId 6 False) 7 8 200 20 False,
        mkEdge (SeqId 7 True) 4 5 50 30 False, mkEdge (SeqId 7 False) 6 7 50 30 False]" ..
  note r = f [THEN conjunct1]
  note nn = f [THEN conjunct2, THEN conjunct1]
  note ce = f [THEN conjunct2, THEN conjunct2, THEN conjunct1]
  note nt = f [THEN conjunct2, THEN conjunct2, THEN conjunct2, THEN conjunct1]
  note et = f [THEN conjunct2, THEN conjunct2, THEN conjunct2, THEN conjunct2]
  from chain_first_paths r chain_second_run [OF nn ce nt et] show ?thesis
    by simp
qed

lemma separatePath_fields:
  "nextNode (separatePath p g) = Suc (Suc (nextNode g))"
  "nodeLeft (edgeTab (separatePath p g) e)
     = (if e = pfront p then nextNode g else nodeLeft (edgeTab g e))"
  by (simp_all add: separatePath_def Let_def split_beta)

lemma separatePath_inEdges:
  assumes "n \<noteq> Suc (nextNode g)" and "n = nextNode g \<or> inEdges (nodeTab g n) = []"
  shows "inEdges (nodeTab (separatePath p g) n) = []"
  using assms
  by (auto simp: separatePath_def Let_def split_beta vecRemove_def)

lemma commitInv_bulgeCommit:
  assumes "commitInv n0 g"
  shows "commitInv n0 (bulgeCommit sep p g)"
proof (cases "pid p \<in> sep")
  case False
  with assms show ?thesis by (simp add: bulgeCommit_def)
next
  case True
  have "inEdges (nodeTab (separatePath p g) n) = []" if f: "freshLeft n0 (separatePath p g) n" for n
  proof -
    from f assms have "n \<noteq> Suc (nextNode g)"
      by (auto simp: freshLeft_def commitInv_def separatePath_fields Suc_diff_le)
    moreover from f assms have "n = nextNode g \<or> inEdges (nodeTab g n) = []"
      by (auto simp: freshLeft_def commitInv_def separatePath_fields less_Suc_eq)
    ultimately show ?thesis by (rule separatePath_inEdges)
  qed
  with assms True show ?thesis
    by (auto simp: commitInv_def bulgeCommit_def separatePath_fields Suc_diff_le)
qed

lemma freshLeft_bulgeCommit:
  assumes "commitInv n0 g" and "freshLeft n0 g (nodeLeft (edgeTab g e))"
  shows "freshLeft n0 (bulgeCommit sep q g) (nodeLeft (edgeTab (bulgeCommit sep q g) e))"
  using assms
  by (auto simp: bulgeCommit_def freshLeft_def commitInv_def separatePath_fields)

lemma freshLeft_staged:
  assumes "commitInv n0 g" and "pid p \<in> sep"
  shows "freshLeft n0 (bulgeCommit sep p g) (nodeLeft (edgeTab (bulgeCommit sep p g) (pfront p)))"
  using assms
  by (auto simp: bulgeCommit_def freshLeft_def commitInv_def separatePath_fields)

lemma fold_commit_fresh:
  assumes "commitInv n0 g" and "freshLeft n0 g (nodeLeft (edgeTab g e))"
  shows "commitInv n0 (fold (bulgeCommit sep) ps g) \<and>
         freshLeft n0 (fold (bulgeCommit sep) ps g) (nodeLeft (edgeTab (fold (bulgeCommit sep) ps g) e))"
  using assms
proof (induction ps arbitrary: g)
  case Nil
  then show ?case by simp
next
  case (Cons q ps)
  from Cons.prems show ?case
    by (simp add: Cons.IH commitInv_bulgeCommit freshLeft_bulgeCommit)
qed

lemma fold_commit_staged:
  assumes "commitInv n0 g" and "p \<in> set ps" and "pid p \<in> sep"
  shows "commitInv n0 (fold (bulgeCommit sep) ps g) \<and>
         freshLeft n0 (fold (bulgeCommit sep) ps g)
           (nodeLeft (edgeTab (fold (bulgeCommit sep) ps g) (pfront p)))"
  using assms
proof (induction ps arbitrary: g)
  case Nil
  then show ?case by simp
next
  case (Cons q ps)
  show ?case
  proof (cases "p = q")
    case True
    with Cons.prems have "commitInv n0 (bulgeCommit sep q g)"
      and "freshLeft n0 (bulgeCommit sep q g) (nodeLeft (edgeTab (bulgeCommit sep q g) (pfront p)))"
      by (simp_all add: commitInv_bulgeCommit freshLeft_staged)
    from fold_commit_fresh [OF this] show ?thesis
      by simp
  next
    case False
    with Cons.prems show ?thesis
      by (simp add: Cons.IH commitInv_bulgeCommit)
  qed
qed

lemma bulgeDetect_no_entrance:
  assumes "inEdges (nodeTab g (pathNodeLeft g q)) = []"
  shows "bulgeDetect r m ps q (g, sep, n) = Inr (g, sep, n)"
proof -
  have "bulgeCandidate m ps g sep q = Inr None"
  proof (cases "\<exists>t0 t1. twoPaths ps g q = [t0, t1]")
    case True
    then obtain t0 t1 where t: "twoPaths ps g q = [t0, t1]" by blast
    then have "t0 \<in> set (twoPaths ps g q)" by simp
    then have "pathNodeLeft g t0 = pathNodeLeft g q"
      by (simp add: twoPaths_def)
    with assms have "\<not> bulgeDegreeOk g t0"
      by (simp add: bulgeDegreeOk_def)
    with t show ?thesis
      by (simp add: bulgeCandidate_def)
  next
    case False
    then show ?thesis
      by (auto simp: bulgeCandidate_def split: list.splits)
  qed
  then show ?thesis by (simp add: bulgeDetect_def)
qed

lemma rc_neq: "rc i \<noteq> i"
  by (cases i) simp

lemma card_insert2:
  assumes "finite S" and "a \<noteq> b"
  shows "2 \<le> card (insert a (insert b S))"
proof -
  have "card {a, b} \<le> card (insert a (insert b S))"
    using assms(1) by (intro card_mono) auto
  with assms(2) show ?thesis by simp
qed

lemma stagedInv_bulgeDetect:
  assumes "stagedInv g st" and "bulgeDetect True m ps path st = Inr st'"
  shows "stagedInv g st'"
  using assms
  by (auto simp: stagedInv_def bulgeDetect_def bulgeApply_def Let_def card_insert2 rc_neq
      split: prod.splits sum.splits option.splits)

lemma fold_commit_empty: "fold (bulgeCommit {}) ps g = g"
  by (induction ps) (simp_all add: bulgeCommit_def)

text \<open>
  Claim C7, amended. After a run of \<^verbatim>\<open>collapseHeterozygousBulges\<close> in collapse mode, every
  path the run has separated starts at a fresh node with no incoming edge, so in any later
  run, whatever its path list, an iteration for a path that starts with the same edge
  fails the degree test and changes nothing: a separated branch is not collapsed again.
  A run that returns 0 leaves the graph unchanged. (A second run may still collapse a
  bubble the first run rejected and return more than 0.)
\<close>

theorem bulge_collapse_second_run:
  assumes "collapseHeterozygousBulges True MAX_BUBBLE_LEN ps g = Inr (g', k)"
  shows "(\<forall>p \<in> set ps. pid p \<in> bulgeStaged MAX_BUBBLE_LEN ps g \<longrightarrow>
            inEdges (nodeTab g' (pathNodeLeft g' p)) = [] \<and>
            (\<forall>q. pfront q = pfront p \<longrightarrow>
               bulgeDetect r m ps2 q (g', sep2, n2) = Inr (g', sep2, n2))) \<and>
         (k = 0 \<longrightarrow> g' = g)"
proof -
  from assms obtain g1 sep n
    where f: "foldE (bulgeDetect True MAX_BUBBLE_LEN ps) ps (g, {}, 0) = Inr (g1, sep, n)"
      and g': "g' = fold (bulgeCommit sep) ps g1" and k: "k = card sep div 2"
    by (auto simp: collapseHeterozygousBulges_def split: sum.splits prod.splits)
  have st: "bulgeStaged MAX_BUBBLE_LEN ps g = sep"
    by (simp add: bulgeStaged_def f)
  have ci: "commitInv (nextNode g1) g1"
    by (auto simp: commitInv_def freshLeft_def)
  have 1: "inEdges (nodeTab g' (pathNodeLeft g' p)) = [] \<and>
           (\<forall>q. pfront q = pfront p \<longrightarrow>
              bulgeDetect r m ps2 q (g', sep2, n2) = Inr (g', sep2, n2))"
    if p: "p \<in> set ps" "pid p \<in> sep" for p
  proof -
    from fold_commit_staged [OF ci p] g'
    have "commitInv (nextNode g1) g'" and "freshLeft (nextNode g1) g' (nodeLeft (edgeTab g' (pfront p)))"
      by simp_all
    then have e: "inEdges (nodeTab g' (pathNodeLeft g' p)) = []"
      by (simp add: commitInv_def pathNodeLeft_def)
    have "bulgeDetect r m ps2 q (g', sep2, n2) = Inr (g', sep2, n2)" if "pfront q = pfront p" for q
      using e that by (intro bulgeDetect_no_entrance) (simp add: pathNodeLeft_def)
    with e show ?thesis by blast
  qed
  have "stagedInv g (g1, sep, n)"
  proof (rule foldE_invariant [OF f, where P = "stagedInv g"])
    show "stagedInv g (g, {}, 0)"
      by (simp add: stagedInv_def)
  next
    fix x a b
    assume "stagedInv g a" and "bulgeDetect True MAX_BUBBLE_LEN ps x a = Inr b"
    then show "stagedInv g b"
      by (rule stagedInv_bulgeDetect)
  qed
  then have 2: "k = 0 \<longrightarrow> g' = g"
    using k g' by (auto simp: stagedInv_def fold_commit_empty)
  from 1 2 st show ?thesis by blast
qed

theorem bulge_collapse_second_run_witness:
  "(case collapseHeterozygousBulges True 50000 (exBulgePaths 30 10 20 30) (exBulge 30 10 20 30 False False) of
      Inr (g', k) \<Rightarrow>
        k = 1 \<and>
        SeqId 2 True \<in> bulgeStaged 50000 (exBulgePaths 30 10 20 30) (exBulge 30 10 20 30 False False) \<and>
        inEdges (nodeTab g' (pathNodeLeft g' (mkPath 2 (SeqId 2 True) 500 10))) = [] \<and>
        bulgeDetect True 50000 (exBulgePaths 30 10 20 30) (mkPath 2 (SeqId 2 True) 500 10) (g', {}, 0)
          = Inr (g', {}, 0)
    | Inl e \<Rightarrow> False) \<and>
   collapseHeterozygousBulges True 50000 (exBulgePaths 10 20 20 10) (exBulge 10 20 20 10 False False)
     = Inr (exBulge 10 20 20 10 False False, 0)"
proof -
  let ?g = "exBulge 30 10 20 30 False False"
  let ?ps = "exBulgePaths 30 10 20 30"
  let ?A = "mkPath 2 (SeqId 2 True) 500 10"
  let ?h = "exBulge 10 20 20 10 False False"
  let ?qs = "exBulgePaths 10 20 20 10"
  obtain g' where r: "collapseHeterozygousBulges True 50000 ?ps ?g = Inr (g', 1)"
    by (simp add: ex_defs run_defs)
  have st: "pid ?A \<in> bulgeStaged 50000 ?ps ?g" and idA: "pid ?A = SeqId 2 True"
    by (simp_all add: bulgeStaged_def ex_defs run_defs)
  have mem: "?A \<in> set ?ps"
    by (simp add: ex_defs)
  from bulge_collapse_second_run [OF r, where r = True and m = 50000 and ?ps2.0 = ?ps
      and ?sep2.0 = "{}" and ?n2.0 = 0, THEN conjunct1, rule_format, OF mem st]
  have 1: "inEdges (nodeTab g' (pathNodeLeft g' ?A)) = []"
    and 2: "bulgeDetect True 50000 ?ps ?A (g', {}, 0) = Inr (g', {}, 0)"
    by simp_all
  obtain h' where r0: "collapseHeterozygousBulges True 50000 ?qs ?h = Inr (h', 0)"
    by (simp add: ex_defs run_defs)
  from bulge_collapse_second_run [OF r0, THEN conjunct2] have "h' = ?h"
    by simp
  with r r0 st idA 1 2 show ?thesis by simp
qed

subsection \<open>The complex haplotype finder\<close>

lemmas haplo_defs = findComplexHaplotypes_def haploIter_def haploStep_def alnIndex_def loopedEdgesOf_def
  outPathsOf_def spanOf_def sortBySpan_def contained_def pathGroupsOf_def repeatsOf_def
  convergenceEdgesOf_def bubbleEnd_def trimGroup_def sameEdges_def addBranch_def trimStep_def
  mkAln_def exHaplo_def exHaploPaths_def exAlnsTrim_def exAlnsCrash_def

lemma scanIndex_absent: "e \<notin> set es \<Longrightarrow> scanIndex e es i acc = acc"
  by (induction es arbitrary: i acc) auto

lemma scanIndex_last_occurrence:
  assumes "e \<notin> set post"
  shows "scanIndex e (pre @ e # post) i acc = i + length pre"
  using assms by (induction pre arbitrary: i acc) (auto simp: scanIndex_absent)

lemma haplo_frame:
  assumes "findComplexHaplotypes alns ps g = Inr (g', k, reports)"
  shows "g' = g \<and> k = 0"
proof -
  from assms obtain rs where f: "foldE (haploIter alns ps) ps (g, []) = Inr (g', rs)" and k: "k = 0"
    by (auto simp: findComplexHaplotypes_def split: sum.splits prod.splits)
  have "fst (g', rs) = g"
    by (rule foldE_invariant [OF f, where P = "\<lambda>st. fst st = g"])
       (auto simp: haploIter_def split: sum.splits option.splits prod.splits)
  with k show ?thesis by simp
qed

text \<open>
  Claim C8 does not hold of the code: the loop of lines 427-434 has no \<^verbatim>\<open>break\<close>, so a
  group is cut from the last position of the start edge, not the first. With the reads
  \<open>s a s b e\<close> and \<open>s c e\<close> the bubble runs from \<open>s\<close> to \<open>e\<close>; the first group is
  trimmed to \<open>s b e\<close>, where the sub-path from the first \<open>s\<close> is \<open>s a s b e\<close>.
\<close>

theorem trim_from_last_occurrence:
  "unbranchingPathsOk exHaplo exHaploPaths \<and>
   map_sum id (\<lambda>r. map (\<lambda>rep. map (\<lambda>b. map alnEdge (gpath b)) (repBranches rep)) (snd (snd r)))
     (findComplexHaplotypes exAlnsTrim exHaploPaths exHaplo) = Inr [[[0, 4, 8], [0, 6, 8]]] \<and>
   trimGroup 0 8 \<lparr>gpath = mkAln [(0, 100), (2, 200), (0, 300), (4, 400), (8, 500)], score = 2\<rparr>
     = Inr \<lparr>gpath = mkAln [(0, 300), (4, 400), (8, 500)], score = 2\<rparr>"
proof -
  have "unbranchingPathsOk exHaplo exHaploPaths"
    unfolding path_defs
    by (simp add: ex_defs exHaplo_def exHaploPaths_def upt_rec del: set_upt)
  moreover have "map_sum id (\<lambda>r. map (\<lambda>rep. map (\<lambda>b. map alnEdge (gpath b)) (repBranches rep)) (snd (snd r)))
     (findComplexHaplotypes exAlnsTrim exHaploPaths exHaplo) = Inr [[[0, 4, 8], [0, 6, 8]]]"
    by (simp add: haplo_defs ex_defs Let_def upt_rec)
  moreover have "trimGroup 0 8 \<lparr>gpath = mkAln [(0, 100), (2, 200), (0, 300), (4, 400), (8, 500)], score = 2\<rparr>
     = Inr \<lparr>gpath = mkAln [(0, 300), (4, 400), (8, 500)], score = 2\<rparr>"
    by (simp add: trimGroup_def mkAln_def Let_def)
  ultimately show ?thesis by blast
qed

text \<open>
  Claim C9 does not hold of the code for every input: the pass does not always return.
  With the reads \<open>s b e y s\<close> and \<open>s c e\<close> the bubble runs from \<open>s\<close> to \<open>e\<close>; in the first
  group the last \<open>s\<close> (position 4) lies after \<open>e\<close> (position 2), and the vector of line
  435 is built from a range that ends before it starts. (Whenever the pass returns, it
  returns 0 and the graph is as it was: lemma \<open>haplo_frame\<close>.)
\<close>

theorem haplo_inverted_range:
  "unbranchingPathsOk exHaplo exHaploPaths \<and>
   findComplexHaplotypes exAlnsCrash exHaploPaths exHaplo = Inl BadRange"
proof -
  have "unbranchingPathsOk exHaplo exHaploPaths"
    unfolding path_defs
    by (simp add: ex_defs exHaplo_def exHaploPaths_def upt_rec del: set_upt)
  moreover have "findComplexHaplotypes exAlnsCrash exHaploPaths exHaplo = Inl BadRange"
    by (simp add: haplo_defs ex_defs Let_def upt_rec)
  ultimately show ?thesis by blast
qed

end
